theory Spec2Isabelle
  imports Main "HOL-Library.Char_ord" "HOL-Library.List_Lexorder"
begin

section \<open>JavaScript values\<close>

text \<open>
  The values the persistence layer handles: null, booleans, numbers, strings, arrays and
  plain objects, and \<open>JBigInt\<close>, the one primitive on which \<^verbatim>\<open>JSON.stringify\<close> throws, so
  that the serialisation failure the code guards against is a branch of the model. An
  object is the list of its own properties in enumeration order; \<^verbatim>\<open>undefined\<close> is \<open>None\<close> of
  \<open>jsval option\<close>, and a property is never \<^verbatim>\<open>undefined\<close>. Strings are lists of 8-bit
  characters. Functions, symbols, dates and other class instances are outside the model.

  A number is a double. The code never computes with the numbers it stores: it prints
  them, uses them as property keys and tests them for truth. So a number is represented
  by what those three operations see of it: the text \<^verbatim>\<open>JSON.stringify\<close> writes for it
  (none for \<^verbatim>\<open>NaN\<close> and the infinities, which are written as \<^verbatim>\<open>null\<close>), the text ToString
  gives, and whether it is truthy. Nothing is assumed of the two texts, so fractions and
  exponent notation are covered; \<^verbatim>\<open>-0\<close> goes with \<^verbatim>\<open>0\<close>, from which none of the three
  operations tells it apart.
\<close>

record jsnum =
  json_text :: "string option"
  string_text :: string
  nonzero :: bool

datatype jsval =
    JNull
  | JBool bool
  | JNum jsnum
  | JStr string
  | JArr "jsval list"
  | JObj "(string \<times> jsval) list"
  | JBigInt int

datatype js_error = Error string | TypeError string | RangeError string

fun message :: "js_error \<Rightarrow> string" where
  "message (Error m) = m"
| "message (TypeError m) = m"
| "message (RangeError m) = m"

subsection \<open>Number and string conversion\<close>

definition digit_char :: "nat \<Rightarrow> char" where
  "digit_char d = char_of (48 + d)"

fun show_nat :: "nat \<Rightarrow> string" where
  "show_nat n = (if n < 10 then [digit_char n] else show_nat (n div 10) @ [digit_char (n mod 10)])"

declare show_nat.simps [simp del]

definition show_int :: "int \<Rightarrow> string" where
  "show_int i = (if i < 0 then CHR ''-'' # show_nat (nat (- i)) else show_nat (nat i))"

text \<open>
  The number with integer value \<open>n\<close>, for \<open>n\<close> of magnitude below \<open>10 ^ 21\<close>, where a number
  that is an integer is printed in decimal; and \<^verbatim>\<open>NaN\<close>.
\<close>

definition num :: "int \<Rightarrow> jsnum" where
  "num n = \<lparr>json_text = Some (show_int n), string_text = show_int n, nonzero = (n \<noteq> 0)\<rparr>"

definition NaN :: jsnum where
  "NaN = \<lparr>json_text = None, string_text = ''NaN'', nonzero = False\<rparr>"

fun intercalate :: "string \<Rightarrow> string list \<Rightarrow> string" where
  "intercalate sep [] = []"
| "intercalate sep [s] = s"
| "intercalate sep (s # t # ss) = s @ sep @ intercalate sep (t # ss)"

subsection \<open>\<^verbatim>\<open>JSON.stringify\<close>\<close>

definition hex_digit :: "nat \<Rightarrow> char" where
  "hex_digit d = (if d < 10 then char_of (48 + d) else char_of (87 + d))"

text \<open>QuoteJSONString: the escapes of one character.\<close>

definition quote_char :: "char \<Rightarrow> string" where
  "quote_char c =
     (if c = CHR 0x22 then [CHR 0x5C, CHR 0x22]
      else if c = CHR 0x5C then [CHR 0x5C, CHR 0x5C]
      else if c = CHR 0x08 then [CHR 0x5C, CHR ''b'']
      else if c = CHR 0x09 then [CHR 0x5C, CHR ''t'']
      else if c = CHR 0x0A then [CHR 0x5C, CHR ''n'']
      else if c = CHR 0x0C then [CHR 0x5C, CHR ''f'']
      else if c = CHR 0x0D then [CHR 0x5C, CHR ''r'']
      else if of_char c < (32::nat) then
        [CHR 0x5C, CHR ''u'', CHR ''0'', CHR ''0'',
         hex_digit (of_char c div 16), hex_digit (of_char c mod 16)]
      else [c])"

definition quote :: "string \<Rightarrow> string" where
  "quote s = CHR 0x22 # concat (map quote_char s) @ [CHR 0x22]"

fun serializable :: "jsval \<Rightarrow> bool" where
  "serializable JNull = True"
| "serializable (JBool b) = True"
| "serializable (JNum n) = True"
| "serializable (JStr s) = True"
| "serializable (JArr xs) = (\<forall>x \<in> set xs. serializable x)"
| "serializable (JObj fs) = (\<forall>f \<in> set fs. serializable (snd f))"
| "serializable (JBigInt n) = False"

fun serialize :: "jsval \<Rightarrow> string" where
  "serialize JNull = ''null''"
| "serialize (JBool b) = (if b then ''true'' else ''false'')"
| "serialize (JNum n) = (case json_text n of Some s \<Rightarrow> s | None \<Rightarrow> ''null'')"
| "serialize (JStr s) = quote s"
| "serialize (JArr xs) = ''['' @ intercalate '','' (map serialize xs) @ '']''"
| "serialize (JObj fs) =
     ''{'' @ intercalate '','' (map (\<lambda>f. quote (fst f) @ '':'' @ serialize (snd f)) fs) @ ''}''"
| "serialize (JBigInt n) = []"

text \<open>
  \<^verbatim>\<open>JSON.stringify(value)\<close> with no replacer and no indentation: the text of the value,
  the properties of an object in their enumeration order, or a TypeError when a BigInt
  is reached. The text does not determine the value: \<^verbatim>\<open>NaN\<close> and \<^verbatim>\<open>null\<close> have the same.
\<close>

definition JSON_stringify :: "jsval \<Rightarrow> js_error + string" where
  "JSON_stringify v =
     (if serializable v then Inr (serialize v)
      else Inl (TypeError ''Do not know how to serialize a BigInt''))"

definition member :: "string \<times> jsval \<Rightarrow> string" where
  "member f = quote (fst f) @ '':'' @ serialize (snd f)"

text \<open>
  \<^verbatim>\<open>JSON.parse(JSON.stringify(value))\<close> on a value that can be serialised: the value again,
  with \<^verbatim>\<open>null\<close> where it held a number that is not finite.
\<close>

fun json_copy :: "jsval \<Rightarrow> jsval" where
  "json_copy (JNum n) = (if json_text n = None then JNull else JNum n)"
| "json_copy (JArr xs) = JArr (map json_copy xs)"
| "json_copy (JObj fs) = JObj (map (\<lambda>f. (fst f, json_copy (snd f))) fs)"
| "json_copy v = v"

subsection \<open>Property access\<close>

text \<open>\<^verbatim>\<open>value.p\<close> for a value that is not null: own properties of objects only.\<close>

fun get_prop :: "jsval \<Rightarrow> string \<Rightarrow> jsval option" where
  "get_prop (JObj fs) p = map_of fs p"
| "get_prop v p = None"

fun truthy :: "jsval \<Rightarrow> bool" where
  "truthy JNull = False"
| "truthy (JBool b) = b"
| "truthy (JNum n) = nonzero n"
| "truthy (JStr s) = (s \<noteq> [])"
| "truthy (JArr xs) = True"
| "truthy (JObj fs) = True"
| "truthy (JBigInt n) = (n \<noteq> 0)"

text \<open>
  \<^verbatim>\<open>obj[k]\<close> for a plain object and a key that is not known beforehand: the own property
  or, failing that, what every plain object inherits under that name. Under \<^verbatim>\<open>__proto__\<close>
  that is the prototype, an object with nothing to enumerate. Under the other inherited
  names it is a method, no value of the model, which \<^verbatim>\<open>JSON.stringify\<close> treats as it
  treats \<^verbatim>\<open>undefined\<close>: it is \<open>None\<close> here.
\<close>

definition read_property :: "(string \<times> jsval) list \<Rightarrow> string \<Rightarrow> jsval option" where
  "read_property fs k =
     (case map_of fs k of
        Some v \<Rightarrow> Some v
      | None \<Rightarrow> if k = ''__proto__'' then Some (JObj []) else None)"

text \<open>\<^verbatim>\<open>typeof v === 'object'\<close> (true of null, arrays and objects).\<close>

fun typeof_object :: "jsval \<Rightarrow> bool" where
  "typeof_object JNull = True"
| "typeof_object (JArr xs) = True"
| "typeof_object (JObj fs) = True"
| "typeof_object v = False"

subsection \<open>Own properties in enumeration order\<close>

text \<open>
  An object enumerates its array-index keys first, in ascending numeric order, then its
  other string keys in the order they were created. \<open>obj_set\<close> is the assignment
  \<^verbatim>\<open>obj[k] = v\<close> on own data properties: an existing key keeps its place.
\<close>

definition int_of_digits :: "string \<Rightarrow> int" where
  "int_of_digits k = foldl (\<lambda>n c. 10 * n + (of_char c - 48)) 0 k"

definition is_array_index :: "string \<Rightarrow> bool" where
  "is_array_index k =
     (k \<noteq> [] \<and> (\<forall>c \<in> set k. CHR ''0'' \<le> c \<and> c \<le> CHR ''9'')
      \<and> (k = ''0'' \<or> hd k \<noteq> CHR ''0'')
      \<and> length k \<le> 10 \<and> int_of_digits k < 4294967295)"

fun obj_insert_index :: "string \<Rightarrow> jsval \<Rightarrow> (string \<times> jsval) list \<Rightarrow> (string \<times> jsval) list" where
  "obj_insert_index k v [] = [(k, v)]"
| "obj_insert_index k v (f # fs) =
     (if is_array_index (fst f) \<and> int_of_digits (fst f) < int_of_digits k
      then f # obj_insert_index k v fs else (k, v) # f # fs)"

definition obj_set :: "string \<Rightarrow> jsval \<Rightarrow> (string \<times> jsval) list \<Rightarrow> (string \<times> jsval) list" where
  "obj_set k v fs =
     (if k \<in> fst ` set fs then map (\<lambda>f. if fst f = k then (k, v) else f) fs
      else if is_array_index k then obj_insert_index k v fs
      else fs @ [(k, v)])"

section \<open>SecureStore: the integrity wrapper\<close>

text \<open>
  \<^verbatim>\<open>HmacSHA256\<close> and \<^verbatim>\<open>SHA256\<close> come from crypto-js and the inner store from
  electron-store; neither is code of this repository, so they are parameters. The state
  \<open>'s\<close> is everything outside the object: the file behind the inner store and the clock.
\<close>

record 's sys =
  HmacSHA256 :: "string \<Rightarrow> string \<Rightarrow> string"
  SHA256 :: "string \<Rightarrow> string"
  store_get :: "string \<Rightarrow> 's \<Rightarrow> js_error + jsval option"
  store_set :: "string \<Rightarrow> jsval \<Rightarrow> 's \<Rightarrow> (js_error + unit) \<times> 's"
  toISOString :: "'s \<Rightarrow> string"

record incident =
  timestamp :: string
  store :: string
  key :: string
  error :: string
  type :: string

datatype console_line =
    ConsoleLog string
  | ConsoleWarn string
  | ConsoleError string
  | SecurityIncident incident

text \<open>The mark the error lines carry after the prefix, byte for byte as the source file has it.\<close>

definition failure_mark :: string where
  "failure_mark = [CHR 0xE2, CHR 0x80, CHR 0x9A, CHR 0xC3, CHR 0xB9, CHR 0xC3, CHR 0xA5]"

record 's SecureStore =
  innerStore :: 's
  encryptionKey :: string
  name :: string
  console :: "console_line list"

definition computeHmac :: "'s sys \<Rightarrow> ('s, 'x) SecureStore_scheme \<Rightarrow> jsval \<Rightarrow> js_error + string" where
  "computeHmac sys this value =
     (case JSON_stringify value of
        Inl e \<Rightarrow> Inl e
      | Inr serialized \<Rightarrow> Inr (HmacSHA256 sys serialized (SHA256 sys (encryptionKey this))))"

definition isHmacWrapped :: "jsval \<Rightarrow> bool" where
  "isHmacWrapped value =
     (case value of
        JObj fs \<Rightarrow>
          (case (map_of fs ''data'', map_of fs ''hmac'') of
             (Some d, Some (JStr h)) \<Rightarrow> length h = 64
           | _ \<Rightarrow> False)
      | _ \<Rightarrow> False)"

definition wrapWithHmac :: "'s sys \<Rightarrow> ('s, 'x) SecureStore_scheme \<Rightarrow> jsval \<Rightarrow> js_error + jsval" where
  "wrapWithHmac sys this value =
     (if isHmacWrapped value then Inr value
      else case computeHmac sys this value of
             Inl e \<Rightarrow> Inl e
           | Inr h \<Rightarrow> Inr (JObj [(''data'', value), (''hmac'', JStr h), (''_v'', JNum (num 1))]))"



text \<open>\<^verbatim>\<open>set(key, value)\<close>: the body of the \<^verbatim>\<open>try\<close>, then the \<^verbatim>\<open>catch\<close>.\<close>

definition set_body :: "'s sys \<Rightarrow> string \<Rightarrow> jsval \<Rightarrow> 's SecureStore \<Rightarrow> (js_error + bool) \<times> 's SecureStore" where
  "set_body sys k value this =
     (case wrapWithHmac sys this value of
        Inl e \<Rightarrow> (Inl e, this)
      | Inr wrapped \<Rightarrow>
          (case store_set sys k wrapped (innerStore this) of
             (Inl e, s') \<Rightarrow> (Inl e, this\<lparr>innerStore := s'\<rparr>)
           | (Inr u, s') \<Rightarrow> (Inr True, this\<lparr>innerStore := s'\<rparr>)))"

definition SecureStore_set :: "'s sys \<Rightarrow> string \<Rightarrow> jsval \<Rightarrow> 's SecureStore \<Rightarrow> (js_error + bool) \<times> 's SecureStore" where
  "SecureStore_set sys k value this =
     (case set_body sys k value this of
        (Inr r, this') \<Rightarrow> (Inr r, this')
      | (Inl e, this') \<Rightarrow>
          (Inr False,
           this'\<lparr>console := console this' @
             [ConsoleError (''[SecureStore] '' @ failure_mark @ '' Failed to set key: '' @ k @ '' '' @ message e)]\<rparr>))"



text \<open>The security-incident records among the console lines.\<close>

definition incidents :: "console_line list \<Rightarrow> incident list" where
  "incidents out = concat (map (\<lambda>l. case l of SecurityIncident i \<Rightarrow> [i] | _ \<Rightarrow> []) out)"

subsection \<open>A concrete instance\<close>

text \<open>
  An inner store held in memory and a stand-in for the MAC that yields 64 characters:
  the instance at which the theorems below are exercised.
\<close>

definition pad64 :: "string \<Rightarrow> string \<Rightarrow> string" where
  "pad64 m k = take 64 (m @ k @ replicate 64 (CHR ''0''))"

definition mem_sys :: "((string \<times> jsval) list) sys" where
  "mem_sys = \<lparr>HmacSHA256 = pad64, SHA256 = (\<lambda>k. k),
     store_get = (\<lambda>k s. Inr (map_of s k)),
     store_set = (\<lambda>k v s. (Inr (), obj_set k v s)),
     toISOString = (\<lambda>s. ''2024-01-01T00:00:00.000Z'')\<rparr>"

definition tampered_entry :: jsval where
  "tampered_entry =
     JObj [(''data'', JStr ''evil''), (''hmac'', JStr (replicate 64 (CHR ''f''))), (''_v'', JNum (num 1))]"

definition demo_store :: "((string \<times> jsval) list) SecureStore" where
  "demo_store = \<lparr>innerStore = [(''token'', tampered_entry)], encryptionKey = ''secret'',
     name = ''settings'', console = []\<rparr>"


definition readonly_sys :: "((string \<times> jsval) list) sys" where
  "readonly_sys = mem_sys\<lparr>store_set := (\<lambda>k v s. (Inl (Error ''EACCES: permission denied''), s))\<rparr>"

section \<open>Workflow store: repairing a nested collection\<close>

text \<open>The results of a list of steps, or the error of the first step that throws.\<close>

fun first_error :: "('e + 'a) list \<Rightarrow> 'e + 'a list" where
  "first_error [] = Inr []"
| "first_error (r # rs) =
     (case r of
        Inl e \<Rightarrow> Inl e
      | Inr x \<Rightarrow> (case first_error rs of Inl e \<Rightarrow> Inl e | Inr xs \<Rightarrow> Inr (x # xs)))"

text \<open>
  ToString, as a property key needs it. An array joins its elements with commas, null
  elements as the empty string. An object gives \<^verbatim>\<open>[object Object]\<close>, unless it has an
  own \<^verbatim>\<open>toString\<close> property: JSON data is never callable, so the conversion falls through
  to \<^verbatim>\<open>valueOf\<close>, gets no primitive, and throws.
\<close>

fun js_toString :: "jsval \<Rightarrow> js_error + string" where
  "js_toString JNull = Inr ''null''"
| "js_toString (JBool b) = Inr (if b then ''true'' else ''false'')"
| "js_toString (JNum n) = Inr (string_text n)"
| "js_toString (JStr s) = Inr s"
| "js_toString (JBigInt n) = Inr (show_int n)"
| "js_toString (JArr xs) =
     (case first_error (map (\<lambda>x. if x = JNull then Inr [] else js_toString x) xs) of
        Inl e \<Rightarrow> Inl e
      | Inr ss \<Rightarrow> Inr (intercalate '','' ss))"
| "js_toString (JObj fs) =
     (if ''toString'' \<in> fst ` set fs
      then Inl (TypeError ''Cannot convert object to primitive value'')
      else Inr ''[object Object]'')"

definition to_property_key :: "jsval option \<Rightarrow> js_error + string" where
  "to_property_key v = (case v of None \<Rightarrow> Inr ''undefined'' | Some x \<Rightarrow> js_toString x)"

text \<open>The own enumerable properties a spread \<^verbatim>\<open>{...src}\<close> copies, and the copying.\<close>

fun own_entries :: "jsval \<Rightarrow> (string \<times> jsval) list" where
  "own_entries (JObj fs) = fs"
| "own_entries (JArr xs) = zip (map (\<lambda>i. show_nat i) [0..<length xs]) xs"
| "own_entries (JStr s) = zip (map (\<lambda>i. show_nat i) [0..<length s]) (map (\<lambda>c. JStr [c]) s)"
| "own_entries v = []"

definition spread_into :: "(string \<times> jsval) list \<Rightarrow> jsval \<Rightarrow> (string \<times> jsval) list" where
  "spread_into acc src = foldl (\<lambda>a f. obj_set (fst f) (snd f) a) acc (own_entries src)"

text \<open>
  The array branch: \<^verbatim>\<open>acc[workflow.id] = workflow\<close> over the elements. Reading \<open>id\<close> of
  null throws; the key \<^verbatim>\<open>__proto__\<close> reaches the prototype setter and creates no property.
\<close>

fun array_reduce :: "jsval list \<Rightarrow> (string \<times> jsval) list \<Rightarrow> js_error + jsval" where
  "array_reduce [] acc = Inr (JObj acc)"
| "array_reduce (workflow # ws) acc =
     (if workflow = JNull then Inl (TypeError ''Cannot read properties of null (reading id)'')
      else case to_property_key (get_prop workflow ''id'') of
             Inl e \<Rightarrow> Inl e
           | Inr k \<Rightarrow> array_reduce ws (if k = ''__proto__'' then acc else obj_set k workflow acc))"

text \<open>
  \<^verbatim>\<open>workflowsValue.id && typeof workflowsValue.id === 'string'\<close>: the nested value has
  an \<open>id\<close> that is a string and not empty.
\<close>

definition isActualWorkflow :: "jsval \<Rightarrow> bool" where
  "isActualWorkflow workflowsValue =
     (case get_prop workflowsValue ''id'' of Some (JStr s) \<Rightarrow> s \<noteq> [] | _ \<Rightarrow> False)"

definition maxUnwrapAttempts :: nat where
  "maxUnwrapAttempts = 10"

text \<open>
  \<open>unwrap_loop\<close> is the \<^verbatim>\<open>while\<close> loop with its two variables; \<open>Inr\<close> is the value of
  \<open>unwrapped\<close> when the loop is left, by \<^verbatim>\<open>break\<close> or by its condition. The console
  lines are not part of the result.
\<close>

function convertWorkflowsToObject :: "jsval \<Rightarrow> js_error + jsval"
  and unwrap_loop :: "jsval \<Rightarrow> nat \<Rightarrow> js_error + jsval" where
  "convertWorkflowsToObject workflows =
     (case workflows of
        JArr ws \<Rightarrow> array_reduce ws []
      | _ \<Rightarrow>
          (case unwrap_loop workflows 0 of
             Inl e \<Rightarrow> Inl e
           | Inr unwrapped \<Rightarrow> Inr (if truthy unwrapped then unwrapped else JObj [])))"
| "unwrap_loop unwrapped unwrapCount =
     (case unwrapped of
        JObj fs \<Rightarrow>
          (case map_of fs ''workflows'' of
             Some workflowsValue \<Rightarrow>
               if truthy workflowsValue \<and> typeof_object workflowsValue
                  \<and> unwrapCount < maxUnwrapAttempts
               then
                 if isActualWorkflow workflowsValue then Inr unwrapped
                 else if length fs = 1 then unwrap_loop workflowsValue (unwrapCount + 1)
                 else
                   (case convertWorkflowsToObject workflowsValue of
                      Inl e \<Rightarrow> Inl e
                    | Inr unwrappedNested \<Rightarrow>
                        Inr (JObj (spread_into (spread_into [] unwrappedNested)
                               (JObj (filter (\<lambda>f. fst f \<noteq> ''workflows'') fs)))))
               else Inr unwrapped
           | None \<Rightarrow> Inr unwrapped)
      | _ \<Rightarrow> Inr unwrapped)"
  by pat_completeness auto
termination
proof -
  have sz: "map_of fs k = Some v \<Longrightarrow> size v < size (JObj fs)"
    for fs :: "(string \<times> jsval) list" and k v
    by (induction fs) (auto split: if_splits)
  show ?thesis
    by (relation "measure (\<lambda>x. case x of Inl v \<Rightarrow> 2 * size v + 1 | Inr (v, c) \<Rightarrow> 2 * size v)")
      (use sz in \<open>force+\<close>)
qed

section \<open>StorageManager: retry, backup, verification, migration\<close>

text \<open>
  \<^verbatim>\<open>browser.storage.local\<close> is the store underneath, of state \<open>'b\<close>: a parameter, since
  any call may fail or lie. \<^verbatim>\<open>get\<close> yields the object of the entries found. The clock, the
  date formatting and the way the console shows a value that is not a string are the
  runtime's, parameters too. What the manager prints, and every \<^verbatim>\<open>_sleep\<close>, is recorded in
  the trace. The text of a console line is its arguments joined by spaces; a line that is
  given the error object ends with the error's message. The pictographs of the messages
  are written as their UTF-8 bytes.
\<close>

definition wrench :: string where
  "wrench = [CHR 0xF0, CHR 0x9F, CHR 0x94, CHR 0xA7]"

definition check_mark :: string where
  "check_mark = [CHR 0xE2, CHR 0x9C, CHR 0x85]"

definition cross_mark :: string where
  "cross_mark = [CHR 0xE2, CHR 0x9D, CHR 0x8C]"

definition floppy_disk :: string where
  "floppy_disk = [CHR 0xF0, CHR 0x9F, CHR 0x92, CHR 0xBE]"

definition siren :: string where
  "siren = [CHR 0xF0, CHR 0x9F, CHR 0x9A, CHR 0xA8]"

definition right_arrow :: string where
  "right_arrow = [CHR 0xE2, CHR 0x86, CHR 0x92]"

definition double_rule :: string where
  "double_rule = concat (replicate 39 [CHR 0xE2, CHR 0x95, CHR 0x90])"

type_synonym fields = "(string \<times> jsval) list"

datatype keys_arg = AllKeys | Key string | Keys "string list"

record 'b local_storage =
  local_get :: "keys_arg \<Rightarrow> 'b \<Rightarrow> (js_error + fields) \<times> 'b"
  local_set :: "fields \<Rightarrow> 'b \<Rightarrow> (js_error + unit) \<times> 'b"
  Date_now :: "'b \<Rightarrow> jsnum"
  Date_toISOString :: "jsval option \<Rightarrow> js_error + string"
  inspect :: "jsval \<Rightarrow> string"

datatype effect = Sleep nat | Console console_line

record 'b world =
  storage :: 'b
  trace :: "effect list"

record StorageManager =
  isElectron :: bool
  migrationHandlers :: "(string \<times> (fields \<Rightarrow> js_error + fields)) list"

definition MAX_RETRIES :: nat where
  "MAX_RETRIES = 3"

definition BACKUP_PREFIX :: string where
  "BACKUP_PREFIX = ''__backup__''"

definition MIGRATION_VERSION_KEY :: string where
  "MIGRATION_VERSION_KEY = ''__storage_version__''"

definition CURRENT_VERSION :: string where
  "CURRENT_VERSION = ''1.0.0''"

definition console_arg :: "'b local_storage \<Rightarrow> jsval \<Rightarrow> string" where
  "console_arg ls v = (case v of JStr s \<Rightarrow> s | _ \<Rightarrow> inspect ls v)"

definition thrown :: "js_error option \<Rightarrow> string" where
  "thrown e = (case e of Some x \<Rightarrow> message x | None \<Rightarrow> ''undefined'')"

definition emit :: "effect list \<Rightarrow> 'b world \<Rightarrow> 'b world" where
  "emit es w = w\<lparr>trace := trace w @ es\<rparr>"

text \<open>\<^verbatim>\<open>Map.prototype.set\<close>: a key already present keeps its place.\<close>

fun Map_set :: "'k \<Rightarrow> 'v \<Rightarrow> ('k \<times> 'v) list \<Rightarrow> ('k \<times> 'v) list" where
  "Map_set k v [] = [(k, v)]"
| "Map_set k v (p # ps) = (if fst p = k then (k, v) # ps else p # Map_set k v ps)"

definition registerMigrations :: "StorageManager \<Rightarrow> StorageManager" where
  "registerMigrations this =
     this\<lparr>migrationHandlers := Map_set ''1.0.0'' (\<lambda>data. Inr data) (migrationHandlers this)\<rparr>"

definition new_StorageManager :: "bool \<Rightarrow> StorageManager" where
  "new_StorageManager electron = registerMigrations \<lparr>isElectron = electron, migrationHandlers = []\<rparr>"

definition applying :: "string \<Rightarrow> effect" where
  "applying version = Console (ConsoleLog (''[StorageManager] Applying migration '' @ version @ ''...''))"

definition migration_needed :: "'b local_storage \<Rightarrow> jsval \<Rightarrow> effect" where
  "migration_needed ls currentVersion =
     Console (ConsoleLog (''[StorageManager] '' @ wrench @ '' Migration needed: ''
        @ console_arg ls currentVersion @ '' '' @ right_arrow @ '' '' @ CURRENT_VERSION))"

fun apply_migrations ::
  "(string \<times> (fields \<Rightarrow> js_error + fields)) list \<Rightarrow> string list \<Rightarrow> fields \<Rightarrow> 'b world
     \<Rightarrow> (js_error + fields) \<times> 'b world" where
  "apply_migrations handlers [] migratedData w = (Inr migratedData, w)"
| "apply_migrations handlers (version # versions) migratedData w =
     (case map_of handlers version of
        None \<Rightarrow> (Inl (TypeError ''migrationFn is not a function''), w)
      | Some migrationFn \<Rightarrow>
          (case migrationFn migratedData of
             Inl e \<Rightarrow> (Inl e, emit [applying version] w)
           | Inr d \<Rightarrow> apply_migrations handlers versions d (emit [applying version] w)))"

text \<open>\<^verbatim>\<open>versions.indexOf(currentVersion) + 1\<close>: strict equality, so only a string can be found.\<close>

fun index_of :: "string list \<Rightarrow> string \<Rightarrow> nat option" where
  "index_of [] x = None"
| "index_of (y # ys) x = (if y = x then Some 0 else map_option Suc (index_of ys x))"

definition startIndex :: "string list \<Rightarrow> jsval \<Rightarrow> nat" where
  "startIndex versions currentVersion =
     (case currentVersion of
        JStr s \<Rightarrow> (case index_of versions s of Some i \<Rightarrow> i + 1 | None \<Rightarrow> 0)
      | _ \<Rightarrow> 0)"

definition runMigrations_body ::
  "'b local_storage \<Rightarrow> StorageManager \<Rightarrow> 'b world \<Rightarrow> (js_error + unit) \<times> 'b world" where
  "runMigrations_body ls this w =
     (case local_get ls (Key MIGRATION_VERSION_KEY) (storage w) of
        (Inl e, b) \<Rightarrow> (Inl e, w\<lparr>storage := b\<rparr>)
      | (Inr r, b) \<Rightarrow>
          (case map_of r MIGRATION_VERSION_KEY of
             None \<Rightarrow>
               (case local_set ls [(MIGRATION_VERSION_KEY, JStr CURRENT_VERSION)] b of
                  (Inl e, b') \<Rightarrow> (Inl e, w\<lparr>storage := b'\<rparr>)
                | (Inr u, b') \<Rightarrow>
                    (Inr (), emit [Console (ConsoleLog (''[StorageManager] '' @ wrench @ '' Storage version initialized: '' @ CURRENT_VERSION))]
                       (w\<lparr>storage := b'\<rparr>)))
           | Some currentVersion \<Rightarrow>
               if \<not> truthy currentVersion then
                 (case local_set ls [(MIGRATION_VERSION_KEY, JStr CURRENT_VERSION)] b of
                    (Inl e, b') \<Rightarrow> (Inl e, w\<lparr>storage := b'\<rparr>)
                  | (Inr u, b') \<Rightarrow>
                      (Inr (), emit [Console (ConsoleLog (''[StorageManager] '' @ wrench @ '' Storage version initialized: '' @ CURRENT_VERSION))]
                         (w\<lparr>storage := b'\<rparr>)))
               else if currentVersion = JStr CURRENT_VERSION then (Inr (), w\<lparr>storage := b\<rparr>)
               else
                 (case local_get ls AllKeys b of
                    (Inl e, b1) \<Rightarrow>
                      (Inl e, emit [migration_needed ls currentVersion] (w\<lparr>storage := b1\<rparr>))
                  | (Inr allData, b1) \<Rightarrow>
                      let versions = sort (map fst (migrationHandlers this));
                          w1 = emit [migration_needed ls currentVersion] (w\<lparr>storage := b1\<rparr>)
                      in (case apply_migrations (migrationHandlers this)
                                 (drop (startIndex versions currentVersion) versions)
                                 (spread_into [] (JObj allData)) w1 of
                            (Inl e, w2) \<Rightarrow> (Inl e, w2)
                          | (Inr migratedData, w2) \<Rightarrow>
                              (case local_set ls migratedData (storage w2) of
                                 (Inl e, b2) \<Rightarrow> (Inl e, w2\<lparr>storage := b2\<rparr>)
                               | (Inr u, b2) \<Rightarrow>
                                   (case local_set ls [(MIGRATION_VERSION_KEY, JStr CURRENT_VERSION)] b2 of
                                      (Inl e, b3) \<Rightarrow> (Inl e, w2\<lparr>storage := b3\<rparr>)
                                    | (Inr u, b3) \<Rightarrow>
                                        (Inr (), emit [Console (ConsoleLog (''[StorageManager] '' @ check_mark @ '' Migration complete: '' @ CURRENT_VERSION))]
                                           (w2\<lparr>storage := b3\<rparr>))))))))"

definition runMigrations ::
  "'b local_storage \<Rightarrow> StorageManager \<Rightarrow> 'b world \<Rightarrow> (js_error + unit) \<times> 'b world" where
  "runMigrations ls this w =
     (case runMigrations_body ls this w of
        (Inr u, w') \<Rightarrow> (Inr u, w')
      | (Inl e, w') \<Rightarrow>
          (Inl (Error (''Migration failed: '' @ message e)),
           emit [Console (ConsoleError (''[StorageManager] '' @ cross_mark @ '' Migration failed: '' @ message e))] w'))"

definition initialize ::
  "'b local_storage \<Rightarrow> StorageManager \<Rightarrow> 'b world \<Rightarrow> (js_error + unit) \<times> 'b world" where
  "initialize ls this w =
     (case runMigrations ls this (emit [Console (ConsoleLog ''[StorageManager] Initializing...'')] w) of
        (Inl e, w') \<Rightarrow> (Inl e, w')
      | (Inr u, w') \<Rightarrow> (Inr u, emit [Console (ConsoleLog (''[StorageManager] '' @ check_mark @ '' Ready''))] w'))"

text \<open>
  \<^verbatim>\<open>createBackup(key)\<close>. The value is read by \<^verbatim>\<open>result[key]\<close>, so by \<open>read_property\<close>. For a key
  that names an inherited method and has no entry in the store the code reads that method
  and hands it to the store as the data of a backup; the model has no value for it and
  makes no backup.
\<close>

definition createBackup :: "'b local_storage \<Rightarrow> string \<Rightarrow> 'b world \<Rightarrow> bool \<times> 'b world" where
  "createBackup ls k w =
     (case local_get ls (Key k) (storage w) of
        (Inl e, b) \<Rightarrow>
          (False, emit [Console (ConsoleError (''[StorageManager] Failed to create backup for '' @ k @ '': '' @ message e))]
                    (w\<lparr>storage := b\<rparr>))
      | (Inr r, b) \<Rightarrow>
          (case read_property r k of
             None \<Rightarrow> (False, w\<lparr>storage := b\<rparr>)
           | Some currentValue \<Rightarrow>
               (case local_set ls
                       [(BACKUP_PREFIX @ k,
                         JObj [(''data'', currentValue), (''timestamp'', JNum (Date_now ls b)),
                               (''version'', JStr CURRENT_VERSION)])] b of
                  (Inl e, b') \<Rightarrow>
                    (False, emit [Console (ConsoleError (''[StorageManager] Failed to create backup for '' @ k @ '': '' @ message e))]
                              (w\<lparr>storage := b'\<rparr>))
                | (Inr u, b') \<Rightarrow>
                    (True, emit [Console (ConsoleLog (''[StorageManager] '' @ floppy_disk @ '' Backup created for '' @ k))]
                             (w\<lparr>storage := b'\<rparr>)))))"

definition restoreFromBackup :: "'b local_storage \<Rightarrow> string \<Rightarrow> 'b world \<Rightarrow> bool \<times> 'b world" where
  "restoreFromBackup ls k w =
     (case local_get ls (Key (BACKUP_PREFIX @ k)) (storage w) of
        (Inl e, b) \<Rightarrow>
          (False, emit [Console (ConsoleError (''[StorageManager] Failed to restore backup for '' @ k @ '': '' @ message e))]
                    (w\<lparr>storage := b\<rparr>))
      | (Inr r, b) \<Rightarrow>
          (case map_of r (BACKUP_PREFIX @ k) of
             Some backup \<Rightarrow>
               (case (truthy backup, get_prop backup ''data'') of
                  (True, Some d) \<Rightarrow>
                    (case local_set ls [(k, d)] b of
                       (Inl e, b') \<Rightarrow>
                         (False, emit [Console (ConsoleError (''[StorageManager] Failed to restore backup for '' @ k @ '': '' @ message e))]
                                   (w\<lparr>storage := b'\<rparr>))
                     | (Inr u, b') \<Rightarrow>
                         (case Date_toISOString ls (get_prop backup ''timestamp'') of
                            Inl e \<Rightarrow>
                              (False, emit [Console (ConsoleError (''[StorageManager] Failed to restore backup for '' @ k @ '': '' @ message e))]
                                        (w\<lparr>storage := b'\<rparr>))
                          | Inr stamp \<Rightarrow>
                              (True, emit [Console (ConsoleLog (''[StorageManager] '' @ check_mark @ '' Restored '' @ k @ '' from backup ('' @ stamp @ '')''))]
                                       (w\<lparr>storage := b'\<rparr>))))
                | _ \<Rightarrow>
                    (False, emit [Console (ConsoleWarn (''[StorageManager] No backup found for '' @ k))]
                              (w\<lparr>storage := b\<rparr>)))
           | None \<Rightarrow>
               (False, emit [Console (ConsoleWarn (''[StorageManager] No backup found for '' @ k))]
                         (w\<lparr>storage := b\<rparr>))))"

definition backoffDelay :: "nat \<Rightarrow> nat" where
  "backoffDelay retries = 2 ^ (MAX_RETRIES - retries) * 100"

definition retry_notice :: "string \<Rightarrow> nat \<Rightarrow> js_error \<Rightarrow> effect list" where
  "retry_notice what retries e =
     [Console (ConsoleWarn (''[StorageManager] '' @ what @ '' failed, retry ''
        @ show_nat (MAX_RETRIES - retries) @ ''/'' @ show_nat MAX_RETRIES @ '' in ''
        @ show_nat (backoffDelay retries) @ ''ms: '' @ message e)),
      Sleep (backoffDelay retries)]"

text \<open>
  The \<^verbatim>\<open>while (retries > 0)\<close> loop of \<^verbatim>\<open>get\<close>, by the value of \<open>retries\<close> at the loop head;
  \<open>Inl lastError\<close> is leaving the loop with every attempt failed.
\<close>

fun get_loop ::
  "'b local_storage \<Rightarrow> keys_arg \<Rightarrow> nat \<Rightarrow> js_error option \<Rightarrow> 'b world
     \<Rightarrow> (js_error option + fields) \<times> 'b world" where
  "get_loop ls keys 0 lastError w = (Inl lastError, w)"
| "get_loop ls keys (Suc retries) lastError w =
     (case local_get ls keys (storage w) of
        (Inr result, b) \<Rightarrow> (Inr result, w\<lparr>storage := b\<rparr>)
      | (Inl e, b) \<Rightarrow>
          get_loop ls keys retries (Some e)
            (if retries > 0 then emit (retry_notice ''Read'' retries e) (w\<lparr>storage := b\<rparr>)
             else w\<lparr>storage := b\<rparr>))"

definition StorageManager_get ::
  "'b local_storage \<Rightarrow> keys_arg \<Rightarrow> 'b world \<Rightarrow> (js_error option + fields) \<times> 'b world" where
  "StorageManager_get ls keys w =
     (case get_loop ls keys MAX_RETRIES None w of
        (Inr result, w') \<Rightarrow> (Inr result, w')
      | (Inl lastError, w') \<Rightarrow>
          (Inl lastError,
           emit [Console (ConsoleError (''[StorageManager] '' @ cross_mark @ '' Read failed after ''
             @ show_nat MAX_RETRIES @ '' attempts: '' @ thrown lastError))] w'))"

record set_options =
  backup :: bool
  critical :: bool

text \<open>\<^verbatim>\<open>JSON.stringify\<close> of a value that may be \<^verbatim>\<open>undefined\<close>: then the result is \<^verbatim>\<open>undefined\<close>.\<close>

definition stringify_opt :: "jsval option \<Rightarrow> js_error + string option" where
  "stringify_opt v =
     (case v of
        None \<Rightarrow> Inr None
      | Some x \<Rightarrow> (case JSON_stringify x of Inl e \<Rightarrow> Inl e | Inr s \<Rightarrow> Inr (Some s)))"

text \<open>
  The loop over \<^verbatim>\<open>Object.entries(items)\<close> that compares the text of \<^verbatim>\<open>verification[key]\<close> with the
  text of the intended value.
\<close>

fun verify_write :: "fields \<Rightarrow> fields \<Rightarrow> js_error + unit" where
  "verify_write verification [] = Inr ()"
| "verify_write verification (f # fs) =
     (case stringify_opt (read_property verification (fst f)) of
        Inl e \<Rightarrow> Inl e
      | Inr read \<Rightarrow>
          (case JSON_stringify (snd f) of
             Inl e \<Rightarrow> Inl e
           | Inr intended \<Rightarrow>
               if read \<noteq> Some intended
               then Inl (Error (''Write verification failed for '' @ fst f))
               else verify_write verification fs))"

text \<open>The body of the \<^verbatim>\<open>try\<close> in the loop of \<^verbatim>\<open>set\<close>.\<close>

definition set_attempt ::
  "'b local_storage \<Rightarrow> fields \<Rightarrow> set_options \<Rightarrow> 'b \<Rightarrow> (js_error + bool) \<times> 'b" where
  "set_attempt ls items options b =
     (case local_set ls items b of
        (Inl e, b1) \<Rightarrow> (Inl e, b1)
      | (Inr u, b1) \<Rightarrow>
          if critical options then
            (case local_get ls (Keys (map fst items)) b1 of
               (Inl e, b2) \<Rightarrow> (Inl e, b2)
             | (Inr verification, b2) \<Rightarrow>
                 (case verify_write verification items of
                    Inl e \<Rightarrow> (Inl e, b2)
                  | Inr u \<Rightarrow> (Inr True, b2)))
          else (Inr True, b1))"

fun set_loop ::
  "'b local_storage \<Rightarrow> fields \<Rightarrow> set_options \<Rightarrow> nat \<Rightarrow> js_error option \<Rightarrow> 'b world
     \<Rightarrow> (js_error option + bool) \<times> 'b world" where
  "set_loop ls items options 0 lastError w = (Inl lastError, w)"
| "set_loop ls items options (Suc retries) lastError w =
     (case set_attempt ls items options (storage w) of
        (Inr r, b) \<Rightarrow> (Inr r, w\<lparr>storage := b\<rparr>)
      | (Inl e, b) \<Rightarrow>
          set_loop ls items options retries (Some e)
            (if retries > 0 then emit (retry_notice ''Write'' retries e) (w\<lparr>storage := b\<rparr>)
             else w\<lparr>storage := b\<rparr>))"

fun backup_all :: "'b local_storage \<Rightarrow> set_options \<Rightarrow> string list \<Rightarrow> 'b world \<Rightarrow> 'b world" where
  "backup_all ls options [] w = w"
| "backup_all ls options (k # ks) w =
     backup_all ls options ks
       (if k = ''workflows'' \<or> k = ''savedBlocks'' \<or> critical options
        then snd (createBackup ls k w) else w)"

fun restore_all :: "'b local_storage \<Rightarrow> string list \<Rightarrow> 'b world \<Rightarrow> 'b world" where
  "restore_all ls [] w = w"
| "restore_all ls (k # ks) w = restore_all ls ks (snd (restoreFromBackup ls k w))"

text \<open>The backups made before the first attempt.\<close>

definition prepared :: "'b local_storage \<Rightarrow> fields \<Rightarrow> set_options \<Rightarrow> 'b world \<Rightarrow> 'b world" where
  "prepared ls fs options w =
     (if backup options \<or> critical options then backup_all ls options (map fst fs) w else w)"

definition notifyUser :: "StorageManager \<Rightarrow> string \<Rightarrow> 'b world \<Rightarrow> 'b world" where
  "notifyUser this msg w =
     emit (Console (ConsoleError (''[StorageManager] '' @ siren @ '' USER ALERT: '' @ msg)) #
           (if isElectron this
            then [Console (ConsoleError double_rule),
                  Console (ConsoleError (''CRITICAL ERROR: '' @ msg)),
                  Console (ConsoleError double_rule)]
            else [Console (ConsoleError (''CRITICAL ERROR: '' @ msg))])) w"

text \<open>
  \<^verbatim>\<open>set(items, options)\<close>. \<open>Inl None\<close> would be \<^verbatim>\<open>throw undefined\<close>; with three attempts
  the loop always leaves an error behind.
\<close>

definition StorageManager_set ::
  "'b local_storage \<Rightarrow> StorageManager \<Rightarrow> jsval \<Rightarrow> set_options \<Rightarrow> 'b world
     \<Rightarrow> (js_error option + bool) \<times> 'b world" where
  "StorageManager_set ls this items options w =
     (case items of
        JObj fs \<Rightarrow>
          (case set_loop ls fs options MAX_RETRIES None (prepared ls fs options w) of
             (Inr r, w') \<Rightarrow> (Inr r, w')
           | (Inl lastError, w') \<Rightarrow>
               (Inl lastError,
                notifyUser this ''Failed to save data. Please try again or restart the application.''
                  ((if backup options \<or> critical options
                    then restore_all ls (map fst fs) else (\<lambda>x. x))
                     (emit [Console (ConsoleError (''[StorageManager] '' @ cross_mark @ '' Write failed after ''
                        @ show_nat MAX_RETRIES @ '' attempts, attempting rollback: '' @ thrown lastError))] w'))))
      | _ \<Rightarrow> (Inl (Some (Error ''Items must be a non-array object'')), w))"

subsection \<open>The migration pass in the spec's words\<close>

text \<open>
  Following the spec's words for the migration pass, to compare with the code: the steps
  not yet applied are the labels that come after the persisted version in the ordered
  list of labels, all of them when the persisted version is not a label; they are applied
  in that order, none skipped, each to the result of the one before, and the first that
  throws ends the pass.
\<close>

definition unapplied :: "string list \<Rightarrow> jsval \<Rightarrow> string list" where
  "unapplied labels persisted =
     (case persisted of
        JStr s \<Rightarrow> if s \<in> set labels then tl (dropWhile (\<lambda>l. l \<noteq> s) labels) else labels
      | _ \<Rightarrow> labels)"

fun steps_in_order ::
  "(string \<times> (fields \<Rightarrow> js_error + fields)) list \<Rightarrow> string list \<Rightarrow> fields \<Rightarrow> js_error + fields" where
  "steps_in_order handlers [] d = Inr d"
| "steps_in_order handlers (l # ls) d =
     (case map_of handlers l of
        None \<Rightarrow> Inl (TypeError ''migrationFn is not a function'')
      | Some step \<Rightarrow> (case step d of Inl e \<Rightarrow> Inl e | Inr d' \<Rightarrow> steps_in_order handlers ls d'))"

subsection \<open>The rollback in the spec's words\<close>

text \<open>
  Following the spec's words for the rollback, to compare with the code: every affected
  key is restored from its backup, in the order of the keys. Restoring a key reads the
  entry kept under the backup key and, when there is one and it holds data, writes that
  data back under the key; the state of the store is what those calls leave.
\<close>

definition restored :: "'b local_storage \<Rightarrow> string \<Rightarrow> 'b \<Rightarrow> 'b" where
  "restored ls k b =
     (case local_get ls (Key (BACKUP_PREFIX @ k)) b of
        (Inl e, b1) \<Rightarrow> b1
      | (Inr r, b1) \<Rightarrow>
          (case map_of r (BACKUP_PREFIX @ k) of
             None \<Rightarrow> b1
           | Some saved \<Rightarrow>
               if truthy saved then
                 (case get_prop saved ''data'' of
                    None \<Rightarrow> b1
                  | Some d \<Rightarrow> snd (local_set ls [(k, d)] b1))
               else b1))"

definition rolled_back :: "'b local_storage \<Rightarrow> string list \<Rightarrow> 'b \<Rightarrow> 'b" where
  "rolled_back ls ks b = fold (restored ls) ks b"

text \<open>The lines of the user alert, as the console shows them.\<close>

definition alert_lines :: "bool \<Rightarrow> console_line list" where
  "alert_lines electron =
     (if electron
      then [ConsoleError (''[StorageManager] '' @ siren
              @ '' USER ALERT: Failed to save data. Please try again or restart the application.''),
            ConsoleError double_rule,
            ConsoleError ''CRITICAL ERROR: Failed to save data. Please try again or restart the application.'',
            ConsoleError double_rule]
      else [ConsoleError (''[StorageManager] '' @ siren
              @ '' USER ALERT: Failed to save data. Please try again or restart the application.''),
            ConsoleError ''CRITICAL ERROR: Failed to save data. Please try again or restart the application.''])"

subsection \<open>A write that is accepted and lost\<close>

text \<open>
  The comparison the verification makes: the value read back and the intended value have
  the same \<^verbatim>\<open>JSON.stringify\<close> text. A value that is missing, or one that cannot be
  serialised, never has.
\<close>

definition same_text :: "jsval option \<Rightarrow> jsval \<Rightarrow> bool" where
  "same_text read_back intended =
     (case (stringify_opt read_back, JSON_stringify intended) of
        (Inr (Some s), Inr t) \<Rightarrow> s = t
      | _ \<Rightarrow> False)"

text \<open>
  A lost write: the store accepts the write of \<open>fs\<close> in state \<open>b\<close>, and the read-back of the
  keys, which leaves the store in \<open>b''\<close>, holds for some key a value whose text is not the
  text of the intended one.
\<close>

definition accepted_but_differs :: "'b local_storage \<Rightarrow> fields \<Rightarrow> 'b \<Rightarrow> 'b \<Rightarrow> bool" where
  "accepted_but_differs ls fs b b'' =
     (\<exists>b' v. local_set ls fs b = (Inr (), b')
        \<and> local_get ls (Keys (map fst fs)) b' = (Inr v, b'')
        \<and> (\<exists>f \<in> set fs. \<not> same_text (read_property v (fst f)) (snd f)))"

subsection \<open>Concrete stores\<close>

text \<open>
  A store in memory that never fails. Its clock stands still, and its console shows a
  value as its JSON text.
\<close>

definition mem_get :: "keys_arg \<Rightarrow> fields \<Rightarrow> fields" where
  "mem_get keys st =
     (case keys of
        AllKeys \<Rightarrow> st
      | Key k \<Rightarrow> filter (\<lambda>f. fst f = k) st
      | Keys ks \<Rightarrow> filter (\<lambda>f. fst f \<in> set ks) st)"

definition instant :: jsnum where
  "instant = \<lparr>json_text = Some ''1700000000000'', string_text = ''1700000000000'', nonzero = True\<rparr>"

definition mem_local :: "fields local_storage" where
  "mem_local =
     \<lparr>local_get = (\<lambda>keys st. (Inr (mem_get keys st), st)),
      local_set = (\<lambda>items st. (Inr (), spread_into st (JObj items))),
      Date_now = (\<lambda>st. instant),
      Date_toISOString = (\<lambda>v. if v = Some (JNum instant) then Inr ''2023-11-14T22:13:20.000Z''
                                else Inl (RangeError ''Invalid time value'')),
      inspect = serialize\<rparr>"

text \<open>A store whose next \<open>n\<close> calls fail, \<open>n\<close> being the first component of its state.\<close>

definition flaky_local :: "(nat \<times> fields) local_storage" where
  "flaky_local =
     \<lparr>local_get = (\<lambda>keys st. case st of
          (0, d) \<Rightarrow> (Inr (mem_get keys d), (0, d))
        | (Suc n, d) \<Rightarrow> (Inl (Error ''storage unavailable''), (n, d))),
      local_set = (\<lambda>items st. case st of
          (0, d) \<Rightarrow> (Inr (), (0, spread_into d (JObj items)))
        | (Suc n, d) \<Rightarrow> (Inl (Error ''storage unavailable''), (n, d))),
      Date_now = (\<lambda>st. instant),
      Date_toISOString = Date_toISOString mem_local,
      inspect = serialize\<rparr>"

text \<open>The delays among the effects, in order, and the console lines.\<close>

definition sleeps :: "effect list \<Rightarrow> nat list" where
  "sleeps es = concat (map (\<lambda>e. case e of Sleep n \<Rightarrow> [n] | _ \<Rightarrow> []) es)"

definition printed :: "effect list \<Rightarrow> console_line list" where
  "printed es = concat (map (\<lambda>e. case e of Console l \<Rightarrow> [l] | _ \<Rightarrow> []) es)"

definition downgraded_store :: fields where
  "downgraded_store = [(MIGRATION_VERSION_KEY, JStr ''2.0.0''), (''workflows'', JObj [])]"

text \<open>
  A manager with two migration steps, registered out of order. Each step appends its
  letter to the string kept under \<open>log\<close>, so the result tells which steps ran and in which
  order.
\<close>

definition log_step :: "string \<Rightarrow> fields \<Rightarrow> js_error + fields" where
  "log_step c d =
     Inr (obj_set ''log'' (JStr ((case map_of d ''log'' of Some (JStr s) \<Rightarrow> s | _ \<Rightarrow> []) @ c)) d)"

definition two_step_manager :: StorageManager where
  "two_step_manager =
     \<lparr>isElectron = False,
      migrationHandlers = Map_set ''0.9.0'' (log_step ''a'') (Map_set ''1.0.0'' (log_step ''b'') [])\<rparr>"

text \<open>A manager whose one step throws.\<close>

definition failing_manager :: StorageManager where
  "failing_manager =
     \<lparr>isElectron = False,
      migrationHandlers = [(''1.0.0'', (\<lambda>d. Inl (TypeError ''Cannot read properties of undefined'')))]\<rparr>"

text \<open>
  A store that accepts every write and silently loses the workflow collection when it
  has more than one entry.
\<close>

definition lose_entry :: "string \<times> jsval \<Rightarrow> string \<times> jsval" where
  "lose_entry f =
     (case snd f of
        JObj es \<Rightarrow> if fst f = ''workflows'' \<and> length es > 1 then (fst f, JObj []) else f
      | _ \<Rightarrow> f)"

definition lossy_local :: "fields local_storage" where
  "lossy_local =
     mem_local\<lparr>local_set := (\<lambda>items st. (Inr (), spread_into st (JObj (map lose_entry items))))\<rparr>"

text \<open>A store that keeps the JSON copy of what it is given, as a store kept in a file does.\<close>

definition json_local :: "fields local_storage" where
  "json_local =
     mem_local\<lparr>local_set := (\<lambda>items st.
        (Inr (), spread_into st (JObj (map (\<lambda>f. (fst f, json_copy (snd f))) items))))\<rparr>"

definition one_workflow :: jsval where
  "one_workflow = JObj [(''a'', JObj [(''id'', JStr ''a'')])]"

definition two_workflows :: jsval where
  "two_workflows = JObj [(''a'', JObj [(''id'', JStr ''a'')]), (''b'', JObj [(''id'', JStr ''b'')])]"

definition saved_copy :: jsval where
  "saved_copy = JObj [(''data'', one_workflow), (''timestamp'', JNum instant), (''version'', JStr ''1.0.0'')]"

section \<open>The storage plugin: debounced saves\<close>

text \<open>
  \<^verbatim>\<open>saveToStorage\<close> of the Pinia plugin. The store object is pinia's and \<^verbatim>\<open>options\<close> is the
  store's definition; the model keeps of them what \<^verbatim>\<open>saveToStorage\<close> reads. \<open>property\<close> is
  \<^verbatim>\<open>store[key]\<close>, \<open>None\<close> when that is \<^verbatim>\<open>undefined\<close> or a function. \<open>storageMap\<close> is the lookup
  \<^verbatim>\<open>options.storageMap[key]\<close>, own or inherited: \<open>None\<close> when \<^verbatim>\<open>options.storageMap\<close> is missing
  or the entry is missing or falsy, otherwise the property key the entry is used as.

  Time is the clock in milliseconds; a timer set by \<^verbatim>\<open>setTimeout\<close> waits in \<open>timers\<close> until
  \<open>advance\<close> reaches its due time; a promise is its index in \<open>promises\<close>, and the \<^verbatim>\<open>resolve\<close>
  and \<^verbatim>\<open>reject\<close> kept in \<^verbatim>\<open>saveQueues\<close> are that index. \<^verbatim>\<open>saveQueues\<close> is shared by all
  stores. The callback of a timer runs to its end before anything else happens. The
  console lines of the plugin are left out. \<open>handed\<close> is bookkeeping for the statements
  below: every call of \<^verbatim>\<open>storageManager.set\<close> a callback makes, with the promise of the
  request it serves, the key and the value.
\<close>

record pinia_store =
  store_id :: string
  retrieved :: bool
  property :: "string \<Rightarrow> jsval option"
  storageMap :: "string \<Rightarrow> string option"

datatype promise_state = Pending | Fulfilled | Rejected "js_error option"

record timer =
  timeoutId :: nat
  due :: nat
  queueKey :: string
  stateKey :: string
  storageKey :: string
  promise :: nat

record 'b app =
  clock :: nat
  pstore :: pinia_store
  saveQueues :: "(string \<times> nat \<times> nat) list"
  timers :: "timer list"
  promises :: "promise_state list"
  next_timeoutId :: nat
  world :: "'b world"
  handed :: "(nat \<times> string \<times> jsval) list"

text \<open>Settling a promise: only a pending promise changes.\<close>

definition settle :: "nat \<Rightarrow> promise_state \<Rightarrow> 'b app \<Rightarrow> 'b app" where
  "settle p result a =
     (if p < length (promises a) \<and> promises a ! p = Pending
      then a\<lparr>promises := (promises a)[p := result]\<rparr> else a)"

definition new_promise :: "promise_state \<Rightarrow> 'b app \<Rightarrow> nat \<times> 'b app" where
  "new_promise st a = (length (promises a), a\<lparr>promises := promises a @ [st]\<rparr>)"

definition clearTimeout :: "nat \<Rightarrow> 'b app \<Rightarrow> 'b app" where
  "clearTimeout tid a = a\<lparr>timers := filter (\<lambda>t. timeoutId t \<noteq> tid) (timers a)\<rparr>"

definition saveToStorage :: "string \<Rightarrow> 'b app \<Rightarrow> nat \<times> 'b app" where
  "saveToStorage k a =
     (case storageMap (pstore a) k of
        None \<Rightarrow> new_promise Fulfilled a
      | Some sk \<Rightarrow>
          if \<not> retrieved (pstore a) then new_promise Fulfilled a
          else
            let qk = store_id (pstore a) @ '':'' @ k;
                a1 = (case map_of (saveQueues a) qk of
                        None \<Rightarrow> a
                      | Some (tid, p) \<Rightarrow>
                          settle p (Rejected (Some (Error ''Save cancelled due to new save request'')))
                            (clearTimeout tid a));
                (p', a2) = new_promise Pending a1;
                tid' = next_timeoutId a2
            in (p', a2\<lparr>timers := timers a2 @
                         [\<lparr>timeoutId = tid', due = clock a2 + 300, queueKey = qk, stateKey = k,
                           storageKey = sk, promise = p'\<rparr>],
                      next_timeoutId := tid' + 1,
                      saveQueues := Map_set qk (tid', p') (saveQueues a2)\<rparr>))"

text \<open>
  What the timer's callback does before it writes: the deep copy
  \<^verbatim>\<open>JSON.parse(JSON.stringify(store[key]))\<close>, which throws when the value cannot be
  serialised or is \<^verbatim>\<open>undefined\<close>, and the check of the workflow collection.
\<close>

definition clone_value :: "pinia_store \<Rightarrow> string \<Rightarrow> js_error + jsval" where
  "clone_value st k =
     (case property st k of
        None \<Rightarrow> Inl (Error (''Cannot serialize '' @ k @ '': '' @ quote ''undefined''
                       @ '' is not valid JSON''))
      | Some v \<Rightarrow>
          (case JSON_stringify v of
             Inl e \<Rightarrow> Inl (Error (''Cannot serialize '' @ k @ '': '' @ message e))
           | Inr s \<Rightarrow> Inr (json_copy v)))"

definition validate_workflows :: "string \<Rightarrow> jsval \<Rightarrow> js_error + jsval" where
  "validate_workflows k v =
     (if k = ''workflows'' \<and> truthy v \<and> typeof_object v then
        (case get_prop v ''workflows'' of
           Some workflowsValue \<Rightarrow>
             if truthy workflowsValue \<and> typeof_object workflowsValue
                \<and> \<not> isActualWorkflow workflowsValue
                \<and> map fst (own_entries v) = [''workflows'']
             then Inl (Error ''Refusing to save corrupted workflows structure with nesting'')
             else Inr v
         | None \<Rightarrow> Inr v)
      else Inr v)"

definition isCritical :: "string \<Rightarrow> bool" where
  "isCritical k = (k = ''workflows'' \<or> k = ''packages'' \<or> k = ''savedBlocks'')"


text \<open>The callback of one timer, run to its end.\<close>

definition fire :: "'b local_storage \<Rightarrow> StorageManager \<Rightarrow> timer \<Rightarrow> 'b app \<Rightarrow> 'b app" where
  "fire ls mgr t a =
     (let a1 = a\<lparr>clock := max (clock a) (due t),
                 timers := filter (\<lambda>u. timeoutId u \<noteq> timeoutId t) (timers a),
                 saveQueues := filter (\<lambda>q. fst q \<noteq> queueKey t) (saveQueues a)\<rparr>
      in case clone_value (pstore a1) (stateKey t) of
           Inl e \<Rightarrow> settle (promise t) (Rejected (Some e)) a1
         | Inr v \<Rightarrow>
             (case validate_workflows (stateKey t) v of
                Inl e \<Rightarrow> settle (promise t) (Rejected (Some e)) a1
              | Inr value \<Rightarrow>
                  (case StorageManager_set ls mgr (JObj [(storageKey t, value)])
                          \<lparr>backup = isCritical (stateKey t), critical = isCritical (stateKey t)\<rparr>
                          (world a1) of
                     (Inr r, w') \<Rightarrow>
                       settle (promise t) Fulfilled
                         (a1\<lparr>world := w', handed := handed a1 @ [(promise t, storageKey t, value)]\<rparr>)
                   | (Inl e, w') \<Rightarrow>
                       settle (promise t) (Rejected e)
                         (a1\<lparr>world := w', handed := handed a1 @ [(promise t, storageKey t, value)]\<rparr>))))"

text \<open>
  Time passes to \<open>t\<close>: the timers due by then run, earliest first, those due at the same
  instant in the order they were set.
\<close>

definition advance :: "'b local_storage \<Rightarrow> StorageManager \<Rightarrow> nat \<Rightarrow> 'b app \<Rightarrow> 'b app" where
  "advance ls mgr t a =
     (let a' = fold (fire ls mgr) (sort_key due (filter (\<lambda>u. due u \<le> t) (timers a))) a
      in a'\<lparr>clock := max (clock a') t\<rparr>)"

text \<open>The application changes what the store holds.\<close>

definition set_state :: "(string \<Rightarrow> jsval option) \<Rightarrow> 'b app \<Rightarrow> 'b app" where
  "set_state s a = a\<lparr>pstore := (pstore a)\<lparr>property := s\<rparr>\<rparr>"






subsection \<open>The states the plugin reaches\<close>

text \<open>
  From a start with nothing pending, by requests for any key, by the passing of time and
  by changes of the store, also to another store: the queue is shared.
\<close>

inductive reachable :: "'b local_storage \<Rightarrow> StorageManager \<Rightarrow> 'b app \<Rightarrow> bool"
  for ls :: "'b local_storage" and mgr :: StorageManager where
  start: "timers a = [] \<Longrightarrow> saveQueues a = [] \<Longrightarrow> promises a = [] \<Longrightarrow> handed a = [] \<Longrightarrow>
            reachable ls mgr a"
| request: "reachable ls mgr a \<Longrightarrow> reachable ls mgr (snd (saveToStorage k a))"
| elapse: "reachable ls mgr a \<Longrightarrow> reachable ls mgr (advance ls mgr t a)"
| change: "reachable ls mgr a \<Longrightarrow> reachable ls mgr (a\<lparr>pstore := st\<rparr>)"

text \<open>
  What holds of every such state: a pending timer has its entry in the queue, under its
  queue key, with its own identifier and promise, and that promise is pending; every
  entry of the queue has its timer; identifiers and promises are not shared.
\<close>

definition coherent :: "'b app \<Rightarrow> bool" where
  "coherent a =
     (distinct (map timeoutId (timers a))
      \<and> distinct (map promise (timers a))
      \<and> (\<forall>u \<in> set (timers a).
            map_of (saveQueues a) (queueKey u) = Some (timeoutId u, promise u)
            \<and> timeoutId u < next_timeoutId a
            \<and> promise u < length (promises a)
            \<and> promises a ! promise u = Pending)
      \<and> (\<forall>qk e. map_of (saveQueues a) qk = Some e \<longrightarrow> (\<exists>u \<in> set (timers a). queueKey u = qk))
      \<and> (\<forall>h \<in> set (handed a). fst h < length (promises a)))"

subsection \<open>The workflow store\<close>









section \<open>The text of an object tells the order of its properties\<close>

subsection \<open>Quoted strings\<close>

lemma hex_digit_code: "d < 16 \<Longrightarrow> (of_char (hex_digit d) :: nat) = (if d < 10 then 48 + d else 87 + d)"
  by (simp add: hex_digit_def)

lemma hex_digit_inj: "d < 16 \<Longrightarrow> d' < 16 \<Longrightarrow> hex_digit d = hex_digit d' \<Longrightarrow> d = d'"
proof -
  assume a: "d < 16" "d' < 16" and e: "hex_digit d = hex_digit d'"
  from e have "(of_char (hex_digit d) :: nat) = of_char (hex_digit d')"
    by (rule arg_cong)
  then have "(if d < 10 then 48 + d else 87 + d) = (if d' < 10 then 48 + d' else 87 + d')"
    by (simp only: hex_digit_code [OF a(1)] hex_digit_code [OF a(2)])
  then show ?thesis
    using a by (simp split: if_splits)
qed

lemma char_of_hex:
  assumes "(of_char c :: nat) < 32" "(of_char d :: nat) < 32"
    and "hex_digit (of_char c div 16) = hex_digit (of_char d div 16)"
    and "hex_digit (of_char c mod 16) = hex_digit (of_char d mod 16)"
  shows "c = d"
proof -
  have "(of_char c :: nat) div 16 = of_char d div 16"
    using assms by (intro hex_digit_inj) auto
  moreover have "(of_char c :: nat) mod 16 = of_char d mod 16"
    using assms by (intro hex_digit_inj) auto
  ultimately have "(of_char c :: nat) = of_char d"
    by (metis div_mult_mod_eq)
  then show ?thesis by simp
qed

lemma quote_char_prefix:
  "quote_char c @ u = quote_char d @ v \<Longrightarrow> c = d \<and> u = v"
  by (auto simp: quote_char_def split: if_splits dest: char_of_hex)

lemma quote_char_not_quote: "quote_char c @ u \<noteq> CHR 0x22 # v"
  by (simp add: quote_char_def)

lemma quoted_body_inj:
  "concat (map quote_char s) @ CHR 0x22 # r = concat (map quote_char t) @ CHR 0x22 # r'
     \<Longrightarrow> s = t \<and> r = r'"
proof (induction s arbitrary: t)
  case Nil
  show ?case
  proof (cases t)
    case Nil
    then show ?thesis using Nil.prems by simp
  next
    case (Cons d t')
    then have "quote_char d @ (concat (map quote_char t') @ CHR 0x22 # r') = CHR 0x22 # r"
      using Nil.prems by simp
    then show ?thesis
      using quote_char_not_quote by blast
  qed
next
  case (Cons c s)
  show ?case
  proof (cases t)
    case Nil
    then have "quote_char c @ (concat (map quote_char s) @ CHR 0x22 # r) = CHR 0x22 # r'"
      using Cons.prems by simp
    then show ?thesis
      using quote_char_not_quote by blast
  next
    case (Cons d t')
    then have "quote_char c @ (concat (map quote_char s) @ CHR 0x22 # r)
        = quote_char d @ (concat (map quote_char t') @ CHR 0x22 # r')"
      using Cons.prems by simp
    then have "c = d" and "concat (map quote_char s) @ CHR 0x22 # r
        = concat (map quote_char t') @ CHR 0x22 # r'"
      using quote_char_prefix by blast+
    then show ?thesis
      using Cons.IH [of t'] Cons by simp
  qed
qed

lemma quote_inj: "quote k @ u = quote k' @ u' \<Longrightarrow> k = k' \<and> u = u'"
  using quoted_body_inj [of k u k' u'] by (simp add: quote_def)

subsection \<open>Properties in a different order\<close>

lemma intercalate_Cons:
  "intercalate sep (x # xs) = x @ (if xs = [] then [] else sep @ intercalate sep xs)"
  by (cases xs) simp_all

lemma serialize_JObj:
  "serialize (JObj fs) = ''{'' @ intercalate '','' (map member fs) @ ''}''"
  by (simp add: member_def [abs_def])

lemma map_of_tail:
  assumes "distinct (map fst (f # fs))" "distinct (map fst (g # gs))"
    and "map_of (f # fs) = map_of (g # gs)" "fst f = fst g"
  shows "map_of fs = map_of gs"
proof
  fix x
  show "map_of fs x = map_of gs x"
  proof (cases "x = fst f")
    case True
    have "map_of fs x = None" "map_of gs x = None"
      using assms(1,2,4) True by (auto simp: map_of_eq_None_iff)
    then show ?thesis by simp
  next
    case False
    have "map_of (f # fs) x = map_of fs x" "map_of (g # gs) x = map_of gs x"
      using False assms(4) by (cases f; cases g; simp)+
    moreover have "map_of (f # fs) x = map_of (g # gs) x"
      by (rule fun_cong [OF assms(3)])
    ultimately show ?thesis
      by simp
  qed
qed

lemma same_text_same_order:
  assumes "distinct (map fst fs)" "distinct (map fst gs)" "map_of fs = map_of gs"
    and "intercalate '','' (map member fs) @ ''}'' = intercalate '','' (map member gs) @ ''}''"
  shows "fs = gs"
  using assms
proof (induction fs arbitrary: gs)
  case Nil
  then show ?case
    by (cases gs) (auto simp: fun_eq_iff split: if_splits)
next
  case (Cons f fs')
  note eq = Cons.prems(4)
  show ?case
  proof (cases gs)
    case Nil
    then show ?thesis
      using Cons.prems(3) by (cases f) (auto simp: fun_eq_iff split: if_splits)
  next
    case (Cons g gs')
    let ?R = "(if fs' = [] then [] else '','' @ intercalate '','' (map member fs')) @ ''}''"
    let ?S = "(if gs' = [] then [] else '','' @ intercalate '','' (map member gs')) @ ''}''"
    have e: "member f @ ?R = member g @ ?S"
      using eq Cons by (simp add: intercalate_Cons)
    then have q: "quote (fst f) @ ('':'' @ serialize (snd f) @ ?R)
        = quote (fst g) @ ('':'' @ serialize (snd g) @ ?S)"
      by (simp add: member_def)
    have k: "fst f = fst g" and r: "serialize (snd f) @ ?R = serialize (snd g) @ ?S"
      using quote_inj [OF q] by simp_all
    have "map_of (f # fs') (fst f) = Some (snd f)" "map_of (g # gs') (fst g) = Some (snd g)"
      by (cases f; cases g; simp)+
    moreover have "map_of (f # fs') (fst f) = map_of (g # gs') (fst f)"
      using fun_cong [OF Cons.prems(3), of "fst f"] Cons by simp
    ultimately have v: "snd f = snd g"
      using k by simp
    have fg: "f = g"
      using k v by (simp add: prod_eq_iff)
    have RS: "?R = ?S"
      using r v by simp
    have m: "map_of fs' = map_of gs'"
    proof (rule map_of_tail [of f fs' g gs'])
      show "distinct (map fst (f # fs'))" by (rule Cons.prems(1))
      show "distinct (map fst (g # gs'))" using Cons.prems(2) unfolding Cons .
      show "map_of (f # fs') = map_of (g # gs')" using Cons.prems(3) unfolding Cons .
      show "fst f = fst g" by (rule k)
    qed
    have d: "distinct (map fst fs')" "distinct (map fst gs')"
      using Cons.prems(1,2) Cons by simp_all
    have "fs' = gs'"
    proof (cases "fs' = []")
      case True
      then show ?thesis
        using m by (cases gs') (auto simp: fun_eq_iff split: if_splits)
    next
      case False
      then have ne: "gs' \<noteq> []"
        using m by (cases fs') (auto simp: fun_eq_iff split: if_splits)
      have "intercalate '','' (map member fs') @ ''}'' = intercalate '','' (map member gs') @ ''}''"
        using RS False ne by simp
      then show ?thesis
        using Cons.IH [OF d m] by simp
    qed
    then show ?thesis
      using fg Cons by simp
  qed
qed

lemma different_order_different_text:
  assumes "distinct (map fst fs)" "distinct (map fst gs)" "map_of fs = map_of gs" "fs \<noteq> gs"
  shows "serialize (JObj fs) \<noteq> serialize (JObj gs)"
proof
  assume "serialize (JObj fs) = serialize (JObj gs)"
  then have "intercalate '','' (map member fs) @ ''}'' = intercalate '','' (map member gs) @ ''}''"
    unfolding serialize_JObj by simp
  then show False
    using same_text_same_order [OF assms(1-3)] assms(4) by simp
qed

section \<open>Properties of SecureStore\<close>

lemma incidents_append [simp]: "incidents (xs @ ys) = incidents xs @ incidents ys"
  by (simp add: incidents_def)

lemma incidents_simps [simp]:
  "incidents [] = []"
  "incidents (ConsoleError m # xs) = incidents xs"
  "incidents (ConsoleLog m # xs) = incidents xs"
  "incidents (ConsoleWarn m # xs) = incidents xs"
  "incidents (SecurityIncident i # xs) = i # incidents xs"
  by (simp_all add: incidents_def)










text \<open>
  Claim C3 as stated fails: the tag is computed over the text \<^verbatim>\<open>JSON.stringify\<close> gives,
  and that text lists the properties in the object's own order. Two objects with the
  same properties in a different order have different texts, and different tags.
\<close>

theorem tag_field_order_counterexample:
  \<open>map_of [(''a'', JNum (num 1)), (''b'', JNum (num 2))] = map_of [(''b'', JNum (num 2)), (''a'', JNum (num 1))]
   \<and> JSON_stringify (JObj [(''a'', JNum (num 1)), (''b'', JNum (num 2))]) = Inr ''{"a":1,"b":2}''
   \<and> JSON_stringify (JObj [(''b'', JNum (num 2)), (''a'', JNum (num 1))]) = Inr ''{"b":2,"a":1}''
   \<and> computeHmac mem_sys demo_store (JObj [(''a'', JNum (num 1)), (''b'', JNum (num 2))])
       \<noteq> computeHmac mem_sys demo_store (JObj [(''b'', JNum (num 2)), (''a'', JNum (num 1))])\<close>
proof (intro conjI)
  show "map_of [(''a'', JNum (num 1)), (''b'', JNum (num 2))] = map_of [(''b'', JNum (num 2)), (''a'', JNum (num 1))]"
    by (rule ext) simp
qed (code_simp+)

text \<open>
  Claim C10. \<open>set(key, value)\<close> never throws: it returns \<open>true\<close> when wrapping and the
  write to the inner store both return, and \<open>false\<close>, after one console line, when
  wrapping throws or when the write throws.
\<close>

theorem set_never_throws:
  "(\<exists>b. fst (SecureStore_set sys k v this) = Inr b)
   \<and> (\<forall>w s'. wrapWithHmac sys this v = Inr w \<longrightarrow>
         store_set sys k w (innerStore this) = (Inr (), s') \<longrightarrow>
         SecureStore_set sys k v this = (Inr True, this\<lparr>innerStore := s'\<rparr>))
   \<and> (\<forall>e. wrapWithHmac sys this v = Inl e \<longrightarrow>
         SecureStore_set sys k v this =
           (Inr False, this\<lparr>console := console this @
              [ConsoleError (''[SecureStore] '' @ failure_mark @ '' Failed to set key: '' @ k @ '' '' @ message e)]\<rparr>))
   \<and> (\<forall>w e s'. wrapWithHmac sys this v = Inr w \<longrightarrow>
         store_set sys k w (innerStore this) = (Inl e, s') \<longrightarrow>
         SecureStore_set sys k v this =
           (Inr False, this\<lparr>innerStore := s', console := console this @
              [ConsoleError (''[SecureStore] '' @ failure_mark @ '' Failed to set key: '' @ k @ '' '' @ message e)]\<rparr>))"
  by (auto simp: SecureStore_set_def set_body_def split: sum.splits prod.splits)

theorem set_never_throws_witness:
  "fst (SecureStore_set mem_sys ''theme'' (JStr ''dark'') demo_store) = Inr True
   \<and> fst (SecureStore_set mem_sys ''theme'' (JBigInt 7) demo_store) = Inr False
   \<and> fst (SecureStore_set readonly_sys ''theme'' (JStr ''dark'') demo_store) = Inr False"
proof -
  let ?w = "JObj [(''data'', JStr ''dark''), (''hmac'', JStr (pad64 (quote ''dark'') ''secret'')), (''_v'', JNum (num 1))]"
  have w1: "wrapWithHmac mem_sys demo_store (JStr ''dark'') = Inr ?w"
    by (simp add: wrapWithHmac_def isHmacWrapped_def computeHmac_def JSON_stringify_def
        mem_sys_def demo_store_def)
  have w2: "wrapWithHmac readonly_sys demo_store (JStr ''dark'') = Inr ?w"
    by (simp add: wrapWithHmac_def isHmacWrapped_def computeHmac_def JSON_stringify_def
        mem_sys_def readonly_sys_def demo_store_def)
  have w3: "wrapWithHmac mem_sys demo_store (JBigInt 7)
      = Inl (TypeError ''Do not know how to serialize a BigInt'')"
    by (simp add: wrapWithHmac_def isHmacWrapped_def computeHmac_def JSON_stringify_def)
  have s1: "store_set mem_sys ''theme'' ?w (innerStore demo_store)
      = (Inr (), obj_set ''theme'' ?w (innerStore demo_store))"
    by (simp add: mem_sys_def)
  have s2: "store_set readonly_sys ''theme'' ?w (innerStore demo_store)
      = (Inl (Error ''EACCES: permission denied''), innerStore demo_store)"
    by (simp add: readonly_sys_def)
  show ?thesis
    using set_never_throws [of mem_sys "''theme''" "JStr ''dark''" demo_store] w1 s1
      set_never_throws [of mem_sys "''theme''" "JBigInt 7" demo_store] w3
      set_never_throws [of readonly_sys "''theme''" "JStr ''dark''" demo_store] w2 s2
    by simp
qed

section \<open>Properties of the workflow repair\<close>

declare convertWorkflowsToObject.simps [simp del] unwrap_loop.simps [simp del]

lemma mem_keys: "k \<in> fst ` set fs \<longleftrightarrow> (\<exists>y. map_of fs k = Some y)"
  using map_of_eq_None_iff [of fs k] by auto

lemma map_of_update_all:
  "map_of (map (\<lambda>f. if fst f = k then (k, v) else f) fs) x =
     (if x = k \<and> k \<in> fst ` set fs then Some v else map_of fs x)"
  unfolding mem_keys by (induction fs) auto

lemma map_of_obj_insert_index:
  "k \<notin> fst ` set fs \<Longrightarrow> map_of (obj_insert_index k v fs) x = (if x = k then Some v else map_of fs x)"
  unfolding mem_keys by (induction fs) auto

lemma map_of_snoc:
  "k \<notin> fst ` set fs \<Longrightarrow> map_of (fs @ [(k, v)]) x = (if x = k then Some v else map_of fs x)"
  unfolding mem_keys by (induction fs) auto

lemma map_of_obj_set: "map_of (obj_set k v fs) x = (if x = k then Some v else map_of fs x)"
  by (simp add: obj_set_def map_of_update_all map_of_obj_insert_index map_of_snoc
      del: map_of_append)

lemma map_of_foldl_obj_set:
  "distinct (map fst es) \<Longrightarrow>
   map_of (foldl (\<lambda>a f. obj_set (fst f) (snd f) a) acc es) x =
     (case map_of es x of Some y \<Rightarrow> Some y | None \<Rightarrow> map_of acc x)"
proof (induction es arbitrary: acc)
  case Nil
  then show ?case by simp
next
  case (Cons e es)
  have "map_of es (fst e) = None"
    using Cons.prems by (simp add: map_of_eq_None_iff)
  then show ?case
    using Cons by (cases e) (auto simp: map_of_obj_set split: option.splits)
qed

lemma map_of_spread_into:
  "distinct (map fst (own_entries src)) \<Longrightarrow>
   map_of (spread_into acc src) x =
     (case map_of (own_entries src) x of Some y \<Rightarrow> Some y | None \<Rightarrow> map_of acc x)"
  by (simp add: spread_into_def map_of_foldl_obj_set)

lemma finish_object: "convertWorkflowsToObject (JObj fs) =
   (case unwrap_loop (JObj fs) 0 of Inl e \<Rightarrow> Inl e
    | Inr unwrapped \<Rightarrow> Inr (if truthy unwrapped then unwrapped else JObj []))"
  by (simp add: convertWorkflowsToObject.simps)

text \<open>
  Claim C7, as the code has it. When \<open>workflows\<close> of the collection is an object or an
  array: if it has an \<open>id\<close> that is a non-empty string, whatever the string, the loop
  stops at once and the collection is returned unchanged; the \<open>id\<close> is not compared with
  the key. If it has none and \<open>workflows\<close> is the only key, the loop goes on with the
  nested value. The first witness is the collection holding a workflow whose id is
  \<open>workflows\<close>, returned unchanged.
\<close>

theorem legitimate_entry_kept:
  assumes w: "map_of fs ''workflows'' = Some w"
    and obj: "truthy w \<and> typeof_object w"
  shows "(isActualWorkflow w \<longrightarrow> convertWorkflowsToObject (JObj fs) = Inr (JObj fs))
    \<and> (\<not> isActualWorkflow w \<and> length fs = 1 \<longrightarrow>
          convertWorkflowsToObject (JObj fs) =
            (case unwrap_loop w 1 of Inl e \<Rightarrow> Inl e
             | Inr unwrapped \<Rightarrow> Inr (if truthy unwrapped then unwrapped else JObj [])))"
  using w obj
  by (simp add: finish_object unwrap_loop.simps [of "JObj fs"] maxUnwrapAttempts_def)

theorem legitimate_entry_kept_witness:
  "convertWorkflowsToObject
     (JObj [(''workflows'', JObj [(''id'', JStr ''workflows''), (''name'', JStr ''My flow'')])])
   = Inr (JObj [(''workflows'', JObj [(''id'', JStr ''workflows''), (''name'', JStr ''My flow'')])])
   \<and> convertWorkflowsToObject
     (JObj [(''workflows'', JObj [(''a'', JObj [(''id'', JStr ''a'')]), (''b'', JObj [(''id'', JStr ''b'')])])])
   = Inr (JObj [(''a'', JObj [(''id'', JStr ''a'')]), (''b'', JObj [(''id'', JStr ''b'')])])"
proof -
  let ?w = "JObj [(''id'', JStr ''workflows''), (''name'', JStr ''My flow'')]"
  let ?u = "JObj [(''a'', JObj [(''id'', JStr ''a'')]), (''b'', JObj [(''id'', JStr ''b'')])]"
  have a: "isActualWorkflow ?w" by (simp add: isActualWorkflow_def)
  have b: "\<not> isActualWorkflow ?u" by (simp add: isActualWorkflow_def)
  have l: "unwrap_loop ?u 1 = Inr ?u" by (simp add: unwrap_loop.simps)
  show ?thesis
    using legitimate_entry_kept [of "[(''workflows'', ?w)]" ?w]
      legitimate_entry_kept [of "[(''workflows'', ?u)]" ?u] a b l
    by simp
qed

text \<open>
  The claim says the loop stops exactly when the nested \<open>id\<close> equals the key name. It
  also stops, with no repair, on a nested value whose \<open>id\<close> is another string.
\<close>

theorem legitimate_entry_counterexample:
  "convertWorkflowsToObject
     (JObj [(''workflows'', JObj [(''id'', JStr ''abc''), (''name'', JStr ''My flow'')])])
   = Inr (JObj [(''workflows'', JObj [(''id'', JStr ''abc''), (''name'', JStr ''My flow'')])])
   \<and> get_prop (JObj [(''id'', JStr ''abc''), (''name'', JStr ''My flow'')]) ''id''
       \<noteq> Some (JStr ''workflows'')"
  by (simp add: finish_object unwrap_loop.simps maxUnwrapAttempts_def isActualWorkflow_def)

text \<open>
  Claim C8, as the code has it. When \<open>workflows\<close> holds an object or array beside other
  keys: if the nested value has no \<open>id\<close> that is a non-empty string, it is converted
  recursively and the result is \<^verbatim>\<open>{...unwrappedNested, ...rootWorkflows}\<close>, so every sibling
  key keeps its root-level value, every other key has the value of the converted nested
  part, and the loop ends there; an error of the recursive call is the error of the
  whole. If the nested value has such an \<open>id\<close>, whatever the string, the collection is
  returned as it is, nothing merged. The first witness is the spec's example; in the
  second the nested part is an array.
\<close>

theorem mixed_corruption_merge:
  assumes w: "map_of fs ''workflows'' = Some w"
    and obj: "truthy w \<and> typeof_object w"
    and mixed: "length fs \<noteq> 1"
    and dist: "distinct (map fst fs)"
  shows "(\<not> isActualWorkflow w \<longrightarrow>
        convertWorkflowsToObject (JObj fs) =
          (case convertWorkflowsToObject w of
             Inl e \<Rightarrow> Inl e
           | Inr n \<Rightarrow> Inr (JObj (spread_into (spread_into [] n)
                              (JObj (filter (\<lambda>f. fst f \<noteq> ''workflows'') fs))))))
    \<and> (\<forall>n k. map_of (spread_into (spread_into [] n)
                 (JObj (filter (\<lambda>f. fst f \<noteq> ''workflows'') fs))) k
          = (if k \<noteq> ''workflows'' \<and> k \<in> fst ` set fs then map_of fs k
             else map_of (spread_into [] n) k))
    \<and> (isActualWorkflow w \<longrightarrow> convertWorkflowsToObject (JObj fs) = Inr (JObj fs))"
proof (intro conjI allI impI)
  assume corrupt: "\<not> isActualWorkflow w"
  have "unwrap_loop (JObj fs) 0 =
      (case convertWorkflowsToObject w of
         Inl e \<Rightarrow> Inl e
       | Inr n \<Rightarrow> Inr (JObj (spread_into (spread_into [] n)
                          (JObj (filter (\<lambda>f. fst f \<noteq> ''workflows'') fs)))))"
    using w obj corrupt mixed
    by (simp add: unwrap_loop.simps [of "JObj fs"] maxUnwrapAttempts_def)
  then show "convertWorkflowsToObject (JObj fs) =
      (case convertWorkflowsToObject w of
         Inl e \<Rightarrow> Inl e
       | Inr n \<Rightarrow> Inr (JObj (spread_into (spread_into [] n)
                          (JObj (filter (\<lambda>f. fst f \<noteq> ''workflows'') fs)))))"
    by (simp add: finish_object split: sum.splits)
next
  fix n k
  let ?root = "filter (\<lambda>f. fst f \<noteq> ''workflows'') fs"
  have d: "distinct (map fst (own_entries (JObj ?root)))"
    using dist by (simp add: distinct_map_filter)
  have r: "map_of ?root k = (if k \<noteq> ''workflows'' then map_of fs k else None)"
    by (induction fs) auto
  show "map_of (spread_into (spread_into [] n) (JObj ?root)) k
      = (if k \<noteq> ''workflows'' \<and> k \<in> fst ` set fs then map_of fs k
         else map_of (spread_into [] n) k)"
    using map_of_spread_into [OF d, of "spread_into [] n" k] r
    unfolding mem_keys by (auto split: option.splits)
next
  assume "isActualWorkflow w"
  then show "convertWorkflowsToObject (JObj fs) = Inr (JObj fs)"
    using w obj by (simp add: finish_object unwrap_loop.simps [of "JObj fs"] maxUnwrapAttempts_def)
qed

theorem mixed_corruption_merge_witness:
  "convertWorkflowsToObject
     (JObj [(''workflows'', JObj [(''a'', JObj [(''id'', JStr ''a'')])]),
            (''c'', JObj [(''id'', JStr ''c'')])])
   = Inr (JObj [(''a'', JObj [(''id'', JStr ''a'')]), (''c'', JObj [(''id'', JStr ''c'')])])
   \<and> convertWorkflowsToObject
     (JObj [(''workflows'', JArr [JObj [(''id'', JStr ''a'')], JObj [(''id'', JStr ''c''), (''old'', JBool True)]]),
            (''c'', JObj [(''id'', JStr ''c'')])])
   = Inr (JObj [(''a'', JObj [(''id'', JStr ''a'')]), (''c'', JObj [(''id'', JStr ''c'')])])"
proof -
  let ?w = "JObj [(''a'', JObj [(''id'', JStr ''a'')])]"
  let ?fs = "[(''workflows'', ?w), (''c'', JObj [(''id'', JStr ''c'')])]"
  let ?u = "JArr [JObj [(''id'', JStr ''a'')], JObj [(''id'', JStr ''c''), (''old'', JBool True)]]"
  let ?gs = "[(''workflows'', ?u), (''c'', JObj [(''id'', JStr ''c'')])]"
  have n: "convertWorkflowsToObject ?w = Inr ?w"
    by (simp add: finish_object unwrap_loop.simps)
  have b: "\<not> isActualWorkflow ?w" by (simp add: isActualWorkflow_def)
  have s: "spread_into (spread_into [] ?w) (JObj [(''c'', JObj [(''id'', JStr ''c'')])])
     = [(''a'', JObj [(''id'', JStr ''a'')]), (''c'', JObj [(''id'', JStr ''c'')])]"
    by code_simp
  have n': "convertWorkflowsToObject ?u
     = Inr (JObj [(''a'', JObj [(''id'', JStr ''a'')]), (''c'', JObj [(''id'', JStr ''c''), (''old'', JBool True)])])"
    by code_simp
  have b': "\<not> isActualWorkflow ?u" by (simp add: isActualWorkflow_def)
  have s': "spread_into
       (spread_into [] (JObj [(''a'', JObj [(''id'', JStr ''a'')]), (''c'', JObj [(''id'', JStr ''c''), (''old'', JBool True)])]))
       (JObj [(''c'', JObj [(''id'', JStr ''c'')])])
     = [(''a'', JObj [(''id'', JStr ''a'')]), (''c'', JObj [(''id'', JStr ''c'')])]"
    by code_simp
  show ?thesis
    using mixed_corruption_merge [of ?fs ?w] mixed_corruption_merge [of ?gs ?u] n b s n' b' s'
    by simp
qed

text \<open>
  The claim as stated fails when the nested value beside the siblings carries a string
  \<open>id\<close>: the collection is returned with the key \<open>workflows\<close> still in it, the nested
  entries not merged with the sibling.
\<close>

theorem mixed_corruption_counterexample:
  "convertWorkflowsToObject
     (JObj [(''workflows'', JObj [(''id'', JStr ''abc''), (''a'', JObj [(''id'', JStr ''a'')])]),
            (''c'', JObj [(''id'', JStr ''c'')])])
   = Inr (JObj [(''workflows'', JObj [(''id'', JStr ''abc''), (''a'', JObj [(''id'', JStr ''a'')])]),
                (''c'', JObj [(''id'', JStr ''c'')])])
   \<and> JObj [(''workflows'', JObj [(''id'', JStr ''abc''), (''a'', JObj [(''id'', JStr ''a'')])]),
            (''c'', JObj [(''id'', JStr ''c'')])]
     \<noteq> JObj [(''id'', JStr ''abc''), (''a'', JObj [(''id'', JStr ''a'')]), (''c'', JObj [(''id'', JStr ''c'')])]"
  by (simp add: finish_object unwrap_loop.simps maxUnwrapAttempts_def isActualWorkflow_def)

section \<open>Properties of StorageManager\<close>

lemma sleeps_append [simp]: "sleeps (xs @ ys) = sleeps xs @ sleeps ys"
  by (simp add: sleeps_def)

lemma sleeps_simps [simp]:
  "sleeps [] = []"
  "sleeps (Sleep n # es) = n # sleeps es"
  "sleeps (Console l # es) = sleeps es"
  by (simp_all add: sleeps_def)

lemma sleeps_retry_notice [simp]: "sleeps (retry_notice what retries e) = [backoffDelay retries]"
  by (simp add: retry_notice_def)

lemma backoffDelay_values [simp]:
  "backoffDelay (Suc (Suc 0)) = 200" "backoffDelay (Suc 0) = 400" "backoffDelay 2 = 200"
  by (simp_all add: backoffDelay_def MAX_RETRIES_def numeral_3_eq_3)

lemma three: "MAX_RETRIES = Suc (Suc (Suc 0))"
  by (simp add: MAX_RETRIES_def)

lemma sleeps_emit_console [simp]: "sleeps (trace (emit [Console l] w)) = sleeps (trace w)"
  by (simp add: emit_def)

lemma sleeps_createBackup [simp]: "sleeps (trace (snd (createBackup ls k w))) = sleeps (trace w)"
  by (simp add: createBackup_def split: prod.splits sum.splits option.splits)

lemma sleeps_backup_all [simp]: "sleeps (trace (backup_all ls options ks w)) = sleeps (trace w)"
  by (induction ks arbitrary: w) simp_all

lemma sleeps_prepared [simp]: "sleeps (trace (prepared ls fs options w)) = sleeps (trace w)"
  by (simp add: prepared_def)

lemma sleeps_restoreFromBackup [simp]:
  "sleeps (trace (snd (restoreFromBackup ls k w))) = sleeps (trace w)"
  by (simp add: restoreFromBackup_def split: prod.splits sum.splits option.splits bool.splits)

lemma sleeps_restore_all [simp]: "sleeps (trace (restore_all ls ks w)) = sleeps (trace w)"
  by (induction ks arbitrary: w) simp_all

lemma sleeps_notifyUser [simp]: "sleeps (trace (notifyUser this m w)) = sleeps (trace w)"
  by (simp add: notifyUser_def emit_def)

subsection \<open>The retry loops, by the number of failures\<close>

lemma get_first:
  assumes "local_get ls keys (storage w) = (Inr r, b1)"
  shows "StorageManager_get ls keys w = (Inr r, w\<lparr>storage := b1\<rparr>)"
  using assms by (simp add: StorageManager_get_def three)

lemma get_second:
  assumes "local_get ls keys (storage w) = (Inl e1, b1)" "local_get ls keys b1 = (Inr r, b2)"
  shows "StorageManager_get ls keys w =
     (Inr r, w\<lparr>storage := b2, trace := trace w @ retry_notice ''Read'' 2 e1\<rparr>)"
  using assms by (simp add: StorageManager_get_def three emit_def numeral_2_eq_2)

lemma get_third:
  assumes "local_get ls keys (storage w) = (Inl e1, b1)" "local_get ls keys b1 = (Inl e2, b2)"
    and "local_get ls keys b2 = (Inr r, b3)"
  shows "StorageManager_get ls keys w =
     (Inr r, w\<lparr>storage := b3,
               trace := trace w @ retry_notice ''Read'' 2 e1 @ retry_notice ''Read'' 1 e2\<rparr>)"
  using assms by (simp add: StorageManager_get_def three emit_def numeral_2_eq_2)

lemma get_exhausted:
  assumes "local_get ls keys (storage w) = (Inl e1, b1)" "local_get ls keys b1 = (Inl e2, b2)"
    and "local_get ls keys b2 = (Inl e3, b3)"
  shows "StorageManager_get ls keys w =
     (Inl (Some e3),
      w\<lparr>storage := b3,
        trace := trace w @ retry_notice ''Read'' 2 e1 @ retry_notice ''Read'' 1 e2 @
          [Console (ConsoleError (''[StorageManager] '' @ cross_mark @ '' Read failed after ''
             @ show_nat MAX_RETRIES @ '' attempts: '' @ message e3))]\<rparr>)"
  using assms by (simp add: StorageManager_get_def three emit_def numeral_2_eq_2 thrown_def)

lemma set_loop_first:
  assumes "set_attempt ls fs options (storage w) = (Inr r, b1)"
  shows "set_loop ls fs options MAX_RETRIES None w = (Inr r, w\<lparr>storage := b1\<rparr>)"
  using assms by (simp add: three)

lemma set_loop_second:
  assumes "set_attempt ls fs options (storage w) = (Inl e1, b1)"
    and "set_attempt ls fs options b1 = (Inr r, b2)"
  shows "set_loop ls fs options MAX_RETRIES None w =
     (Inr r, w\<lparr>storage := b2, trace := trace w @ retry_notice ''Write'' 2 e1\<rparr>)"
  using assms by (simp add: three emit_def numeral_2_eq_2)

lemma set_loop_third:
  assumes "set_attempt ls fs options (storage w) = (Inl e1, b1)"
    and "set_attempt ls fs options b1 = (Inl e2, b2)"
    and "set_attempt ls fs options b2 = (Inr r, b3)"
  shows "set_loop ls fs options MAX_RETRIES None w =
     (Inr r, w\<lparr>storage := b3,
               trace := trace w @ retry_notice ''Write'' 2 e1 @ retry_notice ''Write'' 1 e2\<rparr>)"
  using assms by (simp add: three emit_def numeral_2_eq_2)

lemma set_loop_exhausted:
  assumes "set_attempt ls fs options (storage w) = (Inl e1, b1)"
    and "set_attempt ls fs options b1 = (Inl e2, b2)"
    and "set_attempt ls fs options b2 = (Inl e3, b3)"
  shows "set_loop ls fs options MAX_RETRIES None w =
     (Inl (Some e3),
      w\<lparr>storage := b3, trace := trace w @ retry_notice ''Write'' 2 e1 @ retry_notice ''Write'' 1 e2\<rparr>)"
  using assms by (simp add: three emit_def numeral_2_eq_2)

lemma set_returns:
  assumes "set_loop ls fs options MAX_RETRIES None (prepared ls fs options v) = (Inr r, w')"
  shows "StorageManager_set ls this (JObj fs) options v = (Inr r, w')"
  using assms by (simp add: StorageManager_set_def)

lemma set_throws:
  assumes "set_loop ls fs options MAX_RETRIES None (prepared ls fs options v) = (Inl e, w')"
  shows "fst (StorageManager_set ls this (JObj fs) options v) = Inl e
    \<and> sleeps (trace (snd (StorageManager_set ls this (JObj fs) options v))) = sleeps (trace w')"
  using assms by (simp add: StorageManager_set_def)

text \<open>
  Claim C5, as the code has it. \<open>get\<close> and \<open>set\<close> make at most three attempts. An attempt
  that succeeds ends the call with its result. Before the second attempt the call sleeps
  200 ms and before the third 400 ms, that is \<open>2 ^ (n - 1) * 100\<close> before attempt \<open>n\<close>, with no
  jitter: a call that fails twice and then succeeds has slept 200 and then 400 ms. When the
  third attempt fails the call throws its error, with no fourth attempt and no further
  delay. What \<open>get\<close> does depends on the reads alone, what \<open>set\<close> does on the writes alone.
\<close>

theorem backoff_delays:
  "(\<forall>r b1. local_get ls keys (storage w) = (Inr r, b1) \<longrightarrow>
       fst (StorageManager_get ls keys w) = Inr r
       \<and> storage (snd (StorageManager_get ls keys w)) = b1
       \<and> sleeps (trace (snd (StorageManager_get ls keys w))) = sleeps (trace w))
   \<and> (\<forall>e1 b1 r b2.
       local_get ls keys (storage w) = (Inl e1, b1) \<longrightarrow> local_get ls keys b1 = (Inr r, b2) \<longrightarrow>
       fst (StorageManager_get ls keys w) = Inr r
       \<and> storage (snd (StorageManager_get ls keys w)) = b2
       \<and> sleeps (trace (snd (StorageManager_get ls keys w))) = sleeps (trace w) @ [2 ^ (2 - 1) * 100])
   \<and> (\<forall>e1 b1 e2 b2 r b3.
       local_get ls keys (storage w) = (Inl e1, b1) \<longrightarrow> local_get ls keys b1 = (Inl e2, b2) \<longrightarrow>
       local_get ls keys b2 = (Inr r, b3) \<longrightarrow>
       fst (StorageManager_get ls keys w) = Inr r
       \<and> storage (snd (StorageManager_get ls keys w)) = b3
       \<and> sleeps (trace (snd (StorageManager_get ls keys w)))
           = sleeps (trace w) @ [2 ^ (2 - 1) * 100, 2 ^ (3 - 1) * 100])
   \<and> (\<forall>e1 b1 e2 b2 e3 b3.
       local_get ls keys (storage w) = (Inl e1, b1) \<longrightarrow> local_get ls keys b1 = (Inl e2, b2) \<longrightarrow>
       local_get ls keys b2 = (Inl e3, b3) \<longrightarrow>
       fst (StorageManager_get ls keys w) = Inl (Some e3)
       \<and> storage (snd (StorageManager_get ls keys w)) = b3
       \<and> sleeps (trace (snd (StorageManager_get ls keys w))) = sleeps (trace w) @ [200, 400])
   \<and> (\<forall>r c1. set_attempt ls fs options (storage (prepared ls fs options v)) = (Inr r, c1) \<longrightarrow>
       fst (StorageManager_set ls this (JObj fs) options v) = Inr r
       \<and> storage (snd (StorageManager_set ls this (JObj fs) options v)) = c1
       \<and> sleeps (trace (snd (StorageManager_set ls this (JObj fs) options v))) = sleeps (trace v))
   \<and> (\<forall>d1 c1 r c2.
       set_attempt ls fs options (storage (prepared ls fs options v)) = (Inl d1, c1) \<longrightarrow>
       set_attempt ls fs options c1 = (Inr r, c2) \<longrightarrow>
       fst (StorageManager_set ls this (JObj fs) options v) = Inr r
       \<and> storage (snd (StorageManager_set ls this (JObj fs) options v)) = c2
       \<and> sleeps (trace (snd (StorageManager_set ls this (JObj fs) options v)))
           = sleeps (trace v) @ [2 ^ (2 - 1) * 100])
   \<and> (\<forall>d1 c1 d2 c2 r c3.
       set_attempt ls fs options (storage (prepared ls fs options v)) = (Inl d1, c1) \<longrightarrow>
       set_attempt ls fs options c1 = (Inl d2, c2) \<longrightarrow>
       set_attempt ls fs options c2 = (Inr r, c3) \<longrightarrow>
       fst (StorageManager_set ls this (JObj fs) options v) = Inr r
       \<and> storage (snd (StorageManager_set ls this (JObj fs) options v)) = c3
       \<and> sleeps (trace (snd (StorageManager_set ls this (JObj fs) options v)))
           = sleeps (trace v) @ [2 ^ (2 - 1) * 100, 2 ^ (3 - 1) * 100])
   \<and> (\<forall>d1 c1 d2 c2 d3 c3.
       set_attempt ls fs options (storage (prepared ls fs options v)) = (Inl d1, c1) \<longrightarrow>
       set_attempt ls fs options c1 = (Inl d2, c2) \<longrightarrow>
       set_attempt ls fs options c2 = (Inl d3, c3) \<longrightarrow>
       fst (StorageManager_set ls this (JObj fs) options v) = Inl (Some d3)
       \<and> sleeps (trace (snd (StorageManager_set ls this (JObj fs) options v)))
           = sleeps (trace v) @ [200, 400])"
proof (intro conjI allI impI)
  fix r b1
  assume g: "local_get ls keys (storage w) = (Inr r, b1)"
  show "fst (StorageManager_get ls keys w) = Inr r"
    "storage (snd (StorageManager_get ls keys w)) = b1"
    "sleeps (trace (snd (StorageManager_get ls keys w))) = sleeps (trace w)"
    by (simp_all add: get_first [OF g])
next
  fix e1 b1 r b2
  assume g: "local_get ls keys (storage w) = (Inl e1, b1)" "local_get ls keys b1 = (Inr r, b2)"
  show "fst (StorageManager_get ls keys w) = Inr r"
    "storage (snd (StorageManager_get ls keys w)) = b2"
    "sleeps (trace (snd (StorageManager_get ls keys w))) = sleeps (trace w) @ [2 ^ (2 - 1) * 100]"
    by (simp_all add: get_second [OF g])
next
  fix e1 b1 e2 b2 r b3
  assume g: "local_get ls keys (storage w) = (Inl e1, b1)" "local_get ls keys b1 = (Inl e2, b2)"
    "local_get ls keys b2 = (Inr r, b3)"
  show "fst (StorageManager_get ls keys w) = Inr r"
    "storage (snd (StorageManager_get ls keys w)) = b3"
    "sleeps (trace (snd (StorageManager_get ls keys w)))
       = sleeps (trace w) @ [2 ^ (2 - 1) * 100, 2 ^ (3 - 1) * 100]"
    by (simp_all add: get_third [OF g])
next
  fix e1 b1 e2 b2 e3 b3
  assume g: "local_get ls keys (storage w) = (Inl e1, b1)" "local_get ls keys b1 = (Inl e2, b2)"
    "local_get ls keys b2 = (Inl e3, b3)"
  show "fst (StorageManager_get ls keys w) = Inl (Some e3)"
    "storage (snd (StorageManager_get ls keys w)) = b3"
    "sleeps (trace (snd (StorageManager_get ls keys w))) = sleeps (trace w) @ [200, 400]"
    by (simp_all add: get_exhausted [OF g])
next
  fix r c1
  assume s: "set_attempt ls fs options (storage (prepared ls fs options v)) = (Inr r, c1)"
  show "fst (StorageManager_set ls this (JObj fs) options v) = Inr r"
    "storage (snd (StorageManager_set ls this (JObj fs) options v)) = c1"
    "sleeps (trace (snd (StorageManager_set ls this (JObj fs) options v))) = sleeps (trace v)"
    by (simp_all add: set_returns [OF set_loop_first [OF s]])
next
  fix d1 c1 r c2
  assume s: "set_attempt ls fs options (storage (prepared ls fs options v)) = (Inl d1, c1)"
    "set_attempt ls fs options c1 = (Inr r, c2)"
  show "fst (StorageManager_set ls this (JObj fs) options v) = Inr r"
    "storage (snd (StorageManager_set ls this (JObj fs) options v)) = c2"
    "sleeps (trace (snd (StorageManager_set ls this (JObj fs) options v)))
       = sleeps (trace v) @ [2 ^ (2 - 1) * 100]"
    by (simp_all add: set_returns [OF set_loop_second [OF s]])
next
  fix d1 c1 d2 c2 r c3
  assume s: "set_attempt ls fs options (storage (prepared ls fs options v)) = (Inl d1, c1)"
    "set_attempt ls fs options c1 = (Inl d2, c2)" "set_attempt ls fs options c2 = (Inr r, c3)"
  show "fst (StorageManager_set ls this (JObj fs) options v) = Inr r"
    "storage (snd (StorageManager_set ls this (JObj fs) options v)) = c3"
    "sleeps (trace (snd (StorageManager_set ls this (JObj fs) options v)))
       = sleeps (trace v) @ [2 ^ (2 - 1) * 100, 2 ^ (3 - 1) * 100]"
    by (simp_all add: set_returns [OF set_loop_third [OF s]])
next
  fix d1 c1 d2 c2 d3 c3
  assume s: "set_attempt ls fs options (storage (prepared ls fs options v)) = (Inl d1, c1)"
    "set_attempt ls fs options c1 = (Inl d2, c2)" "set_attempt ls fs options c2 = (Inl d3, c3)"
  show "fst (StorageManager_set ls this (JObj fs) options v) = Inl (Some d3)"
    "sleeps (trace (snd (StorageManager_set ls this (JObj fs) options v)))
       = sleeps (trace v) @ [200, 400]"
    using set_throws [OF set_loop_exhausted [OF s], of this] by simp_all
qed

theorem backoff_delays_witness:
  "fst (StorageManager_get flaky_local (Key ''workflows'')
          \<lparr>storage = (2, [(''workflows'', JObj [])]), trace = []\<rparr>)
     = Inr [(''workflows'', JObj [])]
   \<and> sleeps (trace (snd (StorageManager_get flaky_local (Key ''workflows'')
          \<lparr>storage = (2, [(''workflows'', JObj [])]), trace = []\<rparr>))) = [200, 400]
   \<and> fst (StorageManager_get flaky_local (Key ''workflows'')
          \<lparr>storage = (3, [(''workflows'', JObj [])]), trace = []\<rparr>)
     = Inl (Some (Error ''storage unavailable''))
   \<and> sleeps (trace (snd (StorageManager_get flaky_local (Key ''workflows'')
          \<lparr>storage = (3, [(''workflows'', JObj [])]), trace = []\<rparr>))) = [200, 400]
   \<and> fst (StorageManager_set flaky_local (new_StorageManager False) (JObj [(''a'', JNull)])
          \<lparr>backup = False, critical = False\<rparr> \<lparr>storage = (2, []), trace = []\<rparr>) = Inr True
   \<and> sleeps (trace (snd (StorageManager_set flaky_local (new_StorageManager False) (JObj [(''a'', JNull)])
          \<lparr>backup = False, critical = False\<rparr> \<lparr>storage = (2, []), trace = []\<rparr>))) = [200, 400]
   \<and> fst (StorageManager_set flaky_local (new_StorageManager False) (JObj [(''a'', JNull)])
          \<lparr>backup = False, critical = False\<rparr> \<lparr>storage = (3, []), trace = []\<rparr>)
     = Inl (Some (Error ''storage unavailable''))
   \<and> sleeps (trace (snd (StorageManager_set flaky_local (new_StorageManager False) (JObj [(''a'', JNull)])
          \<lparr>backup = False, critical = False\<rparr> \<lparr>storage = (3, []), trace = []\<rparr>))) = [200, 400]"
proof -
  let ?d = "[(''workflows'', JObj [])]"
  let ?k = "Key ''workflows''"
  let ?o = "\<lparr>backup = False, critical = False\<rparr>"
  let ?fs = "[(''a'', JNull)]"
  let ?e = "Error ''storage unavailable''"
  have g: "local_get flaky_local ?k (Suc n, ?d) = (Inl ?e, (n, ?d))"
    "local_get flaky_local ?k (0, ?d) = (Inr ?d, (0, ?d))" for n
    by (simp_all add: flaky_local_def mem_get_def)
  have s: "set_attempt flaky_local ?fs ?o (Suc n, []) = (Inl ?e, (n, []))"
    "set_attempt flaky_local ?fs ?o (0, []) = (Inr True, (0, spread_into [] (JObj ?fs)))" for n
    by (simp_all add: set_attempt_def flaky_local_def)
  have p: "storage (prepared flaky_local ?fs ?o \<lparr>storage = b, trace = []\<rparr>) = b" for b :: "nat \<times> fields"
    by (simp add: prepared_def)
  have n2: "(2::nat) = Suc (Suc 0)" and n3: "(3::nat) = Suc (Suc (Suc 0))"
    by simp_all
  note G2 = backoff_delays [where ls = flaky_local and keys = ?k
      and w = "\<lparr>storage = (2, ?d), trace = []\<rparr>", THEN conjunct2, THEN conjunct2, THEN conjunct1,
      rule_format, of ?e "(Suc 0, ?d)" ?e "(0, ?d)" ?d "(0, ?d)"]
  note G3 = backoff_delays [where ls = flaky_local and keys = ?k
      and w = "\<lparr>storage = (3, ?d), trace = []\<rparr>", THEN conjunct2, THEN conjunct2, THEN conjunct2,
      THEN conjunct1, rule_format, of ?e "(Suc (Suc 0), ?d)" ?e "(Suc 0, ?d)" ?e "(0, ?d)"]
  note S2 = backoff_delays [where ls = flaky_local and fs = ?fs and options = ?o
      and v = "\<lparr>storage = (2, []), trace = []\<rparr>" and this = "new_StorageManager False",
      THEN conjunct2, THEN conjunct2, THEN conjunct2, THEN conjunct2, THEN conjunct2, THEN conjunct2,
      THEN conjunct1, rule_format,
      of ?e "(Suc 0, [])" ?e "(0, [])" True "(0, spread_into [] (JObj ?fs))"]
  note S3 = backoff_delays [where ls = flaky_local and fs = ?fs and options = ?o
      and v = "\<lparr>storage = (3, []), trace = []\<rparr>" and this = "new_StorageManager False",
      THEN conjunct2, THEN conjunct2, THEN conjunct2, THEN conjunct2, THEN conjunct2, THEN conjunct2,
      THEN conjunct2, rule_format,
      of ?e "(Suc (Suc 0), [])" ?e "(Suc 0, [])" ?e "(0, [])"]
  show ?thesis
    using G2 G3 S2 S3 by (simp add: g s p n2 n3)
qed

text \<open>
  The claim's delays of 100 ms and 200 ms are not the code's: \<open>retries\<close> is decremented
  before the delay is computed, so the first delay is \<open>2 ^ 1 * 100\<close>.
\<close>

theorem backoff_delays_counterexample:
  "fst (StorageManager_get flaky_local (Key ''workflows'')
          \<lparr>storage = (2, [(''workflows'', JObj [])]), trace = []\<rparr>) = Inr [(''workflows'', JObj [])]
   \<and> sleeps (trace (snd (StorageManager_get flaky_local (Key ''workflows'')
          \<lparr>storage = (2, [(''workflows'', JObj [])]), trace = []\<rparr>))) = [200, 400]
   \<and> sleeps (trace (snd (StorageManager_get flaky_local (Key ''workflows'')
          \<lparr>storage = (2, [(''workflows'', JObj [])]), trace = []\<rparr>))) \<noteq> [100, 200]"
  by (simp add: StorageManager_get_def three flaky_local_def numeral_2_eq_2 emit_def mem_get_def)

subsection \<open>The migration pass\<close>

lemma apply_migrations_steps:
  "fst (apply_migrations hs vs d w) = steps_in_order hs vs d"
  by (induction vs arbitrary: d w) (auto split: option.splits sum.splits)

lemma apply_migrations_storage:
  "storage (snd (apply_migrations hs vs d w)) = storage w"
  by (induction vs arbitrary: d w) (auto simp: emit_def split: option.splits sum.splits)

lemma index_of_None: "index_of vs s = None \<longleftrightarrow> s \<notin> set vs"
  by (induction vs) auto

lemma drop_index_of:
  "index_of vs s = Some i \<Longrightarrow> drop (Suc i) vs = tl (dropWhile (\<lambda>l. l \<noteq> s) vs)"
  by (induction vs arbitrary: i) (auto split: if_splits)

lemma start_unapplied: "drop (startIndex vs v) vs = unapplied vs v"
proof (cases v)
  case (JStr s)
  show ?thesis
  proof (cases "index_of vs s")
    case None
    then have "s \<notin> set vs"
      using index_of_None [of vs s] by simp
    then show ?thesis
      using JStr None by (simp add: startIndex_def unapplied_def)
  next
    case (Some i)
    then have "s \<in> set vs"
      using index_of_None [of vs s] by auto
    then show ?thesis
      using JStr Some drop_index_of [OF Some] by (simp add: startIndex_def unapplied_def)
  qed
qed (simp_all add: startIndex_def unapplied_def)

lemma version_after_set:
  "map_of (spread_into st (JObj [(MIGRATION_VERSION_KEY, v)])) MIGRATION_VERSION_KEY = Some v"
  by (simp add: map_of_spread_into)

lemma lookup_mem_get_Key [simp]: "map_of (mem_get (Key k) st) k = map_of st k"
  by (induction st) (auto simp: mem_get_def)

lemma mem_get_AllKeys [simp]: "mem_get AllKeys st = st"
  by (simp add: mem_get_def)

lemma mem_local_simps [simp]:
  "local_get mem_local keys st = (Inr (mem_get keys st), st)"
  "local_set mem_local items st = (Inr (), spread_into st (JObj items))"
  by (simp_all add: mem_local_def)

lemma run_current:
  assumes "local_get ls (Key MIGRATION_VERSION_KEY) (storage w) = (Inr r, b)"
    and "map_of r MIGRATION_VERSION_KEY = Some (JStr CURRENT_VERSION)"
  shows "runMigrations ls this w = (Inr (), w\<lparr>storage := b\<rparr>)"
  using assms by (simp add: runMigrations_def runMigrations_body_def CURRENT_VERSION_def)

lemma run_first_time:
  assumes "local_get ls (Key MIGRATION_VERSION_KEY) (storage w) = (Inr r, b)"
    and "map_of r MIGRATION_VERSION_KEY = None
         \<or> (\<exists>v. map_of r MIGRATION_VERSION_KEY = Some v \<and> \<not> truthy v)"
    and "local_set ls [(MIGRATION_VERSION_KEY, JStr CURRENT_VERSION)] b = (Inr (), b')"
  shows "fst (runMigrations ls this w) = Inr () \<and> storage (snd (runMigrations ls this w)) = b'"
  using assms by (auto simp: runMigrations_def runMigrations_body_def emit_def)

lemma run_body_migrate:
  assumes "local_get ls (Key MIGRATION_VERSION_KEY) (storage w) = (Inr r, b)"
    and "map_of r MIGRATION_VERSION_KEY = Some v" "truthy v" "v \<noteq> JStr CURRENT_VERSION"
    and "local_get ls AllKeys b = (Inr allData, b1)"
  shows "runMigrations_body ls this w =
     (case apply_migrations (migrationHandlers this)
             (unapplied (sort (map fst (migrationHandlers this))) v)
             (spread_into [] (JObj allData))
             (emit [migration_needed ls v] (w\<lparr>storage := b1\<rparr>)) of
        (Inl e, w2) \<Rightarrow> (Inl e, w2)
      | (Inr migratedData, w2) \<Rightarrow>
          (case local_set ls migratedData (storage w2) of
             (Inl e, b2) \<Rightarrow> (Inl e, w2\<lparr>storage := b2\<rparr>)
           | (Inr u, b2) \<Rightarrow>
               (case local_set ls [(MIGRATION_VERSION_KEY, JStr CURRENT_VERSION)] b2 of
                  (Inl e, b3) \<Rightarrow> (Inl e, w2\<lparr>storage := b3\<rparr>)
                | (Inr u, b3) \<Rightarrow>
                    (Inr (), emit [Console (ConsoleLog (''[StorageManager] '' @ check_mark
                                @ '' Migration complete: '' @ CURRENT_VERSION))]
                               (w2\<lparr>storage := b3\<rparr>)))))"
  using assms by (simp add: runMigrations_body_def Let_def start_unapplied)

lemma run_migrated:
  assumes "local_get ls (Key MIGRATION_VERSION_KEY) (storage w) = (Inr r, b)"
    and "map_of r MIGRATION_VERSION_KEY = Some v" "truthy v" "v \<noteq> JStr CURRENT_VERSION"
    and "local_get ls AllKeys b = (Inr allData, b1)"
    and "steps_in_order (migrationHandlers this)
           (unapplied (sort (map fst (migrationHandlers this))) v)
           (spread_into [] (JObj allData)) = Inr d"
    and "local_set ls d b1 = (Inr (), b2)"
    and "local_set ls [(MIGRATION_VERSION_KEY, JStr CURRENT_VERSION)] b2 = (Inr (), b3)"
  shows "fst (runMigrations ls this w) = Inr () \<and> storage (snd (runMigrations ls this w)) = b3"
proof -
  let ?r = "apply_migrations (migrationHandlers this)
              (unapplied (sort (map fst (migrationHandlers this))) v)
              (spread_into [] (JObj allData))
              (emit [migration_needed ls v] (w\<lparr>storage := b1\<rparr>))"
  obtain w2 where r: "?r = (Inr d, w2)"
    using apply_migrations_steps [of "migrationHandlers this"
        "unapplied (sort (map fst (migrationHandlers this))) v" "spread_into [] (JObj allData)"
        "emit [migration_needed ls v] (w\<lparr>storage := b1\<rparr>)"] assms(6)
    by (cases ?r) auto
  have "storage w2 = b1"
    using apply_migrations_storage [of "migrationHandlers this"
        "unapplied (sort (map fst (migrationHandlers this))) v" "spread_into [] (JObj allData)"
        "emit [migration_needed ls v] (w\<lparr>storage := b1\<rparr>)"] r
    by (simp add: emit_def)
  then show ?thesis
    using assms(7,8) r
    by (simp add: runMigrations_def run_body_migrate [OF assms(1-5)] emit_def)
qed

lemma run_step_fails:
  assumes "local_get ls (Key MIGRATION_VERSION_KEY) (storage w) = (Inr r, b)"
    and "map_of r MIGRATION_VERSION_KEY = Some v" "truthy v" "v \<noteq> JStr CURRENT_VERSION"
    and "local_get ls AllKeys b = (Inr allData, b1)"
    and "steps_in_order (migrationHandlers this)
           (unapplied (sort (map fst (migrationHandlers this))) v)
           (spread_into [] (JObj allData)) = Inl e"
  shows "fst (runMigrations ls this w) = Inl (Error (''Migration failed: '' @ message e))
    \<and> storage (snd (runMigrations ls this w)) = b1"
proof -
  let ?r = "apply_migrations (migrationHandlers this)
              (unapplied (sort (map fst (migrationHandlers this))) v)
              (spread_into [] (JObj allData))
              (emit [migration_needed ls v] (w\<lparr>storage := b1\<rparr>))"
  obtain w2 where r: "?r = (Inl e, w2)"
    using apply_migrations_steps [of "migrationHandlers this"
        "unapplied (sort (map fst (migrationHandlers this))) v" "spread_into [] (JObj allData)"
        "emit [migration_needed ls v] (w\<lparr>storage := b1\<rparr>)"] assms(6)
    by (cases ?r) auto
  have "storage w2 = b1"
    using apply_migrations_storage [of "migrationHandlers this"
        "unapplied (sort (map fst (migrationHandlers this))) v" "spread_into [] (JObj allData)"
        "emit [migration_needed ls v] (w\<lparr>storage := b1\<rparr>)"] r
    by (simp add: emit_def)
  then show ?thesis
    using r by (simp add: runMigrations_def run_body_migrate [OF assms(1-5)] emit_def)
qed

lemma run_returns:
  assumes "runMigrations ls this w = (Inr (), w')"
  shows "(\<exists>r. local_get ls (Key MIGRATION_VERSION_KEY) (storage w) = (Inr r, storage w')
            \<and> map_of r MIGRATION_VERSION_KEY = Some (JStr CURRENT_VERSION))
    \<or> (\<exists>b. local_set ls [(MIGRATION_VERSION_KEY, JStr CURRENT_VERSION)] b = (Inr (), storage w'))"
proof -
  obtain res w0 where body: "runMigrations_body ls this w = (res, w0)"
    by (cases "runMigrations_body ls this w")
  have ok: "res = Inr ()" and w0: "w0 = w'"
    using assms body by (auto simp: runMigrations_def split: sum.splits)
  show ?thesis
    using body unfolding ok w0 runMigrations_body_def Let_def
    by (auto simp: emit_def split: prod.splits sum.splits option.splits if_splits)
qed

lemma run_returns_mem:
  assumes "runMigrations mem_local this \<lparr>storage = st, trace = t\<rparr> = (Inr (), w')"
  shows "map_of (storage w') MIGRATION_VERSION_KEY = Some (JStr CURRENT_VERSION)"
proof -
  consider r where "local_get mem_local (Key MIGRATION_VERSION_KEY) st = (Inr r, storage w')"
      "map_of r MIGRATION_VERSION_KEY = Some (JStr CURRENT_VERSION)"
    | b where "local_set mem_local [(MIGRATION_VERSION_KEY, JStr CURRENT_VERSION)] b = (Inr (), storage w')"
    using run_returns [OF assms] by auto
  then show ?thesis
  proof cases
    case 1
    then show ?thesis by auto
  next
    case 2
    then have "storage w' = spread_into b (JObj [(MIGRATION_VERSION_KEY, JStr CURRENT_VERSION)])"
      by simp
    then show ?thesis
      by (simp only: version_after_set)
  qed
qed

text \<open>
  Claim C9, as the code has it, over any store. When the persisted version is the
  current one the pass is a no-op: it reads the version and returns, writing nothing and
  printing nothing. When there is none (or a falsy one) the pass writes the current
  version. Otherwise the handlers of the labels that come after the persisted version in
  the sorted list of labels (all labels, when it is not one of them) are applied in that
  order, none skipped, each to the result of the one before, starting from all the data
  of the store; the result is written, and then the current version. When a handler
  throws, the pass throws and nothing has been written. Whenever the pass returns
  normally, either the version it read was the current one, or its last call of the
  store was the write of \<open>CURRENT_VERSION\<close> under the version key; so on a store that keeps
  what is written the persisted version afterwards is \<open>CURRENT_VERSION\<close>, whatever it was
  before.
\<close>

theorem migration_version:
  "(\<forall>r b. local_get ls (Key MIGRATION_VERSION_KEY) (storage w) = (Inr r, b) \<longrightarrow>
       map_of r MIGRATION_VERSION_KEY = Some (JStr CURRENT_VERSION) \<longrightarrow>
       runMigrations ls this w = (Inr (), w\<lparr>storage := b\<rparr>))
   \<and> (\<forall>r b b'. local_get ls (Key MIGRATION_VERSION_KEY) (storage w) = (Inr r, b) \<longrightarrow>
       (map_of r MIGRATION_VERSION_KEY = None
        \<or> (\<exists>v. map_of r MIGRATION_VERSION_KEY = Some v \<and> \<not> truthy v)) \<longrightarrow>
       local_set ls [(MIGRATION_VERSION_KEY, JStr CURRENT_VERSION)] b = (Inr (), b') \<longrightarrow>
       fst (runMigrations ls this w) = Inr () \<and> storage (snd (runMigrations ls this w)) = b')
   \<and> (\<forall>r b v allData b1 d b2 b3.
       local_get ls (Key MIGRATION_VERSION_KEY) (storage w) = (Inr r, b) \<longrightarrow>
       map_of r MIGRATION_VERSION_KEY = Some v \<longrightarrow> truthy v \<longrightarrow> v \<noteq> JStr CURRENT_VERSION \<longrightarrow>
       local_get ls AllKeys b = (Inr allData, b1) \<longrightarrow>
       steps_in_order (migrationHandlers this)
         (unapplied (sort (map fst (migrationHandlers this))) v)
         (spread_into [] (JObj allData)) = Inr d \<longrightarrow>
       local_set ls d b1 = (Inr (), b2) \<longrightarrow>
       local_set ls [(MIGRATION_VERSION_KEY, JStr CURRENT_VERSION)] b2 = (Inr (), b3) \<longrightarrow>
       fst (runMigrations ls this w) = Inr () \<and> storage (snd (runMigrations ls this w)) = b3)
   \<and> (\<forall>r b v allData b1 e.
       local_get ls (Key MIGRATION_VERSION_KEY) (storage w) = (Inr r, b) \<longrightarrow>
       map_of r MIGRATION_VERSION_KEY = Some v \<longrightarrow> truthy v \<longrightarrow> v \<noteq> JStr CURRENT_VERSION \<longrightarrow>
       local_get ls AllKeys b = (Inr allData, b1) \<longrightarrow>
       steps_in_order (migrationHandlers this)
         (unapplied (sort (map fst (migrationHandlers this))) v)
         (spread_into [] (JObj allData)) = Inl e \<longrightarrow>
       fst (runMigrations ls this w) = Inl (Error (''Migration failed: '' @ message e))
       \<and> storage (snd (runMigrations ls this w)) = b1)
   \<and> (\<forall>w'. runMigrations ls this w = (Inr (), w') \<longrightarrow>
       (\<exists>r. local_get ls (Key MIGRATION_VERSION_KEY) (storage w) = (Inr r, storage w')
            \<and> map_of r MIGRATION_VERSION_KEY = Some (JStr CURRENT_VERSION))
       \<or> (\<exists>b. local_set ls [(MIGRATION_VERSION_KEY, JStr CURRENT_VERSION)] b = (Inr (), storage w')))
   \<and> (\<forall>st t w'. runMigrations mem_local this \<lparr>storage = st, trace = t\<rparr> = (Inr (), w') \<longrightarrow>
       map_of (storage w') MIGRATION_VERSION_KEY = Some (JStr CURRENT_VERSION))"
proof (intro conjI allI impI)
  fix r b
  assume "local_get ls (Key MIGRATION_VERSION_KEY) (storage w) = (Inr r, b)"
    "map_of r MIGRATION_VERSION_KEY = Some (JStr CURRENT_VERSION)"
  then show "runMigrations ls this w = (Inr (), w\<lparr>storage := b\<rparr>)"
    by (rule run_current)
next
  fix r b b'
  assume a: "local_get ls (Key MIGRATION_VERSION_KEY) (storage w) = (Inr r, b)"
    "map_of r MIGRATION_VERSION_KEY = None
     \<or> (\<exists>v. map_of r MIGRATION_VERSION_KEY = Some v \<and> \<not> truthy v)"
    "local_set ls [(MIGRATION_VERSION_KEY, JStr CURRENT_VERSION)] b = (Inr (), b')"
  show "fst (runMigrations ls this w) = Inr ()" "storage (snd (runMigrations ls this w)) = b'"
    using run_first_time [OF a, of this] by simp_all
next
  fix r b v allData b1 d b2 b3
  assume a: "local_get ls (Key MIGRATION_VERSION_KEY) (storage w) = (Inr r, b)"
    "map_of r MIGRATION_VERSION_KEY = Some v" "truthy v" "v \<noteq> JStr CURRENT_VERSION"
    "local_get ls AllKeys b = (Inr allData, b1)"
    "steps_in_order (migrationHandlers this)
       (unapplied (sort (map fst (migrationHandlers this))) v)
       (spread_into [] (JObj allData)) = Inr d"
    "local_set ls d b1 = (Inr (), b2)"
    "local_set ls [(MIGRATION_VERSION_KEY, JStr CURRENT_VERSION)] b2 = (Inr (), b3)"
  show "fst (runMigrations ls this w) = Inr ()" "storage (snd (runMigrations ls this w)) = b3"
    using run_migrated [OF a] by simp_all
next
  fix r b v allData b1 e
  assume a: "local_get ls (Key MIGRATION_VERSION_KEY) (storage w) = (Inr r, b)"
    "map_of r MIGRATION_VERSION_KEY = Some v" "truthy v" "v \<noteq> JStr CURRENT_VERSION"
    "local_get ls AllKeys b = (Inr allData, b1)"
    "steps_in_order (migrationHandlers this)
       (unapplied (sort (map fst (migrationHandlers this))) v)
       (spread_into [] (JObj allData)) = Inl e"
  show "fst (runMigrations ls this w) = Inl (Error (''Migration failed: '' @ message e))"
    "storage (snd (runMigrations ls this w)) = b1"
    using run_step_fails [OF a] by simp_all
next
  fix w'
  assume "runMigrations ls this w = (Inr (), w')"
  then show "(\<exists>r. local_get ls (Key MIGRATION_VERSION_KEY) (storage w) = (Inr r, storage w')
            \<and> map_of r MIGRATION_VERSION_KEY = Some (JStr CURRENT_VERSION))
       \<or> (\<exists>b. local_set ls [(MIGRATION_VERSION_KEY, JStr CURRENT_VERSION)] b = (Inr (), storage w'))"
    by (rule run_returns)
next
  fix st t w'
  assume "runMigrations mem_local this \<lparr>storage = st, trace = t\<rparr> = (Inr (), w')"
  then show "map_of (storage w') MIGRATION_VERSION_KEY = Some (JStr CURRENT_VERSION)"
    by (rule run_returns_mem)
qed

text \<open>
  The witness: a manager with the steps \<open>a\<close> (label 0.9.0) and \<open>b\<close> (label 1.0.0). An
  already-migrated store is left alone; from 0.9.0 only \<open>b\<close> runs; from 0.5.0, which is no
  label, \<open>a\<close> runs and then \<open>b\<close>; and when the one step of a manager throws, nothing is
  written.
\<close>

theorem migration_version_witness:
  "runMigrations mem_local two_step_manager
      \<lparr>storage = [(MIGRATION_VERSION_KEY, JStr CURRENT_VERSION), (''log'', JStr ''x'')], trace = []\<rparr>
    = (Inr (), \<lparr>storage = [(MIGRATION_VERSION_KEY, JStr CURRENT_VERSION), (''log'', JStr ''x'')], trace = []\<rparr>)
   \<and> storage (snd (runMigrations mem_local two_step_manager
          \<lparr>storage = [(MIGRATION_VERSION_KEY, JStr ''0.9.0'')], trace = []\<rparr>))
       = [(MIGRATION_VERSION_KEY, JStr ''1.0.0''), (''log'', JStr ''b'')]
   \<and> storage (snd (runMigrations mem_local two_step_manager
          \<lparr>storage = [(MIGRATION_VERSION_KEY, JStr ''0.5.0'')], trace = []\<rparr>))
       = [(MIGRATION_VERSION_KEY, JStr ''1.0.0''), (''log'', JStr ''ab'')]
   \<and> fst (runMigrations mem_local failing_manager
          \<lparr>storage = [(MIGRATION_VERSION_KEY, JStr ''0.9.0'')], trace = []\<rparr>)
       = Inl (Error ''Migration failed: Cannot read properties of undefined'')
   \<and> storage (snd (runMigrations mem_local failing_manager
          \<lparr>storage = [(MIGRATION_VERSION_KEY, JStr ''0.9.0'')], trace = []\<rparr>))
       = [(MIGRATION_VERSION_KEY, JStr ''0.9.0'')]"
proof -
  let ?K = MIGRATION_VERSION_KEY
  let ?cur = "[(?K, JStr CURRENT_VERSION), (''log'', JStr ''x'')]"
  let ?w9 = "\<lparr>storage = [(?K, JStr ''0.9.0'')], trace = []\<rparr> :: fields world"
  let ?w5 = "\<lparr>storage = [(?K, JStr ''0.5.0'')], trace = []\<rparr> :: fields world"
  have labels: "sort (map fst (migrationHandlers two_step_manager)) = [''0.9.0'', ''1.0.0'']"
    by code_simp
  have g: "local_get mem_local (Key ?K) [(?K, x)] = (Inr [(?K, x)], [(?K, x)])"
    "local_get mem_local AllKeys [(?K, x)] = (Inr [(?K, x)], [(?K, x)])" for x
    by (simp_all add: mem_get_def)
  have gc: "local_get mem_local (Key ?K) ?cur = (Inr [(?K, JStr CURRENT_VERSION)], ?cur)"
    by (simp add: mem_get_def MIGRATION_VERSION_KEY_def)
  have n: "JStr ''0.9.0'' \<noteq> JStr CURRENT_VERSION" "JStr ''0.5.0'' \<noteq> JStr CURRENT_VERSION"
    by (simp_all add: CURRENT_VERSION_def)
  have s9: "steps_in_order (migrationHandlers two_step_manager)
      (unapplied (sort (map fst (migrationHandlers two_step_manager))) (JStr ''0.9.0''))
      (spread_into [] (JObj [(?K, JStr ''0.9.0'')]))
      = Inr [(?K, JStr ''0.9.0''), (''log'', JStr ''b'')]"
    unfolding labels by code_simp
  have s5: "steps_in_order (migrationHandlers two_step_manager)
      (unapplied (sort (map fst (migrationHandlers two_step_manager))) (JStr ''0.5.0''))
      (spread_into [] (JObj [(?K, JStr ''0.5.0'')]))
      = Inr [(?K, JStr ''0.5.0''), (''log'', JStr ''ab'')]"
    unfolding labels by code_simp
  have sf: "steps_in_order (migrationHandlers failing_manager)
      (unapplied (sort (map fst (migrationHandlers failing_manager))) (JStr ''0.9.0''))
      (spread_into [] (JObj [(?K, JStr ''0.9.0'')]))
      = Inl (TypeError ''Cannot read properties of undefined'')"
    by code_simp
  have w9: "local_set mem_local [(?K, JStr ''0.9.0''), (''log'', JStr ''b'')] [(?K, JStr ''0.9.0'')]
      = (Inr (), [(?K, JStr ''0.9.0''), (''log'', JStr ''b'')])"
    "local_set mem_local [(?K, JStr CURRENT_VERSION)] [(?K, JStr ''0.9.0''), (''log'', JStr ''b'')]
      = (Inr (), [(?K, JStr ''1.0.0''), (''log'', JStr ''b'')])"
    by code_simp+
  have w5: "local_set mem_local [(?K, JStr ''0.5.0''), (''log'', JStr ''ab'')] [(?K, JStr ''0.5.0'')]
      = (Inr (), [(?K, JStr ''0.5.0''), (''log'', JStr ''ab'')])"
    "local_set mem_local [(?K, JStr CURRENT_VERSION)] [(?K, JStr ''0.5.0''), (''log'', JStr ''ab'')]
      = (Inr (), [(?K, JStr ''1.0.0''), (''log'', JStr ''ab'')])"
    by code_simp+
  note M = migration_version [where ls = mem_local]
  have c1: "runMigrations mem_local two_step_manager \<lparr>storage = ?cur, trace = []\<rparr>
      = (Inr (), \<lparr>storage = ?cur, trace = []\<rparr>)"
    using M [where this = two_step_manager and w = "\<lparr>storage = ?cur, trace = []\<rparr>",
        THEN conjunct1, rule_format, of "[(?K, JStr CURRENT_VERSION)]" ?cur] gc
    by simp
  have c2: "storage (snd (runMigrations mem_local two_step_manager ?w9))
      = [(?K, JStr ''1.0.0''), (''log'', JStr ''b'')]"
    using M [where this = two_step_manager and w = ?w9,
        THEN conjunct2, THEN conjunct2, THEN conjunct1, rule_format,
        OF _ _ _ n(1) _ s9 w9] g [of "JStr ''0.9.0''"]
    by simp
  have c3: "storage (snd (runMigrations mem_local two_step_manager ?w5))
      = [(?K, JStr ''1.0.0''), (''log'', JStr ''ab'')]"
    using M [where this = two_step_manager and w = ?w5,
        THEN conjunct2, THEN conjunct2, THEN conjunct1, rule_format,
        OF _ _ _ n(2) _ s5 w5] g [of "JStr ''0.5.0''"]
    by simp
  have c4: "fst (runMigrations mem_local failing_manager ?w9)
        = Inl (Error (''Migration failed: '' @ message (TypeError ''Cannot read properties of undefined'')))
      \<and> storage (snd (runMigrations mem_local failing_manager ?w9)) = [(?K, JStr ''0.9.0'')]"
    using M [where this = failing_manager and w = ?w9,
        THEN conjunct2, THEN conjunct2, THEN conjunct2, THEN conjunct1, rule_format,
        OF _ _ _ n(1) _ sf] g [of "JStr ''0.9.0''"]
    by simp
  show ?thesis
    using c1 c2 c3 c4 by simp
qed

text \<open>
  The version does regress when the store was written by a later release: a persisted
  \<open>2.0.0\<close> is overwritten by \<open>1.0.0\<close>, since the code compares versions for equality only.
  And the order of the steps is that of the sorted labels, not that of registration: of
  the two steps above \<open>b\<close> was registered first and runs last.
\<close>

theorem migration_version_counterexample:
  "map_of downgraded_store MIGRATION_VERSION_KEY = Some (JStr ''2.0.0'')
   \<and> fst (runMigrations mem_local (new_StorageManager False) \<lparr>storage = downgraded_store, trace = []\<rparr>) = Inr ()
   \<and> map_of (storage (snd (runMigrations mem_local (new_StorageManager False)
        \<lparr>storage = downgraded_store, trace = []\<rparr>))) MIGRATION_VERSION_KEY = Some (JStr ''1.0.0'')
   \<and> ''1.0.0'' < ''2.0.0''
   \<and> map fst (migrationHandlers two_step_manager) = [''1.0.0'', ''0.9.0'']
   \<and> map_of (storage (snd (runMigrations mem_local two_step_manager
        \<lparr>storage = [(MIGRATION_VERSION_KEY, JStr ''0.5.0'')], trace = []\<rparr>))) ''log'' = Some (JStr ''ab'')"
  by code_simp

section \<open>More on the tag\<close>

lemma same_map_serializable:
  assumes "serializable (JObj fs)" "distinct (map fst gs)" "map_of fs = map_of gs"
  shows "serializable (JObj gs)"
proof -
  have "serializable (snd g)" if g: "g \<in> set gs" for g
  proof -
    have "map_of gs (fst g) = Some (snd g)"
      using assms(2) g by (cases g) simp
    then have "map_of fs (fst g) = Some (snd g)"
      using assms(3) by simp
    then have "(fst g, snd g) \<in> set fs"
      by (rule map_of_SomeD)
    then show ?thesis
      using assms(1) by auto
  qed
  then show ?thesis by simp
qed

text \<open>
  Claim C3, as the code has it. The tag is the MAC of the text \<^verbatim>\<open>JSON.stringify\<close> gives
  for the value handed over, not of the stored bytes: two values with the same text have
  the same tag. That text is not canonical in the order of properties. When two objects
  hold the same properties with the same values in a different order, their texts are
  different, and their tags are the MACs of two different messages: equal only if the MAC
  collides on them.
\<close>

theorem tag_of_serialization:
  "(JSON_stringify v1 = JSON_stringify v2 \<longrightarrow> computeHmac sys this v1 = computeHmac sys this v2)
   \<and> (serializable (JObj fs) \<longrightarrow> distinct (map fst fs) \<longrightarrow> distinct (map fst gs) \<longrightarrow>
        map_of fs = map_of gs \<longrightarrow> fs \<noteq> gs \<longrightarrow>
        (\<exists>s t. s \<noteq> t
           \<and> JSON_stringify (JObj fs) = Inr s \<and> JSON_stringify (JObj gs) = Inr t
           \<and> computeHmac sys this (JObj fs) = Inr (HmacSHA256 sys s (SHA256 sys (encryptionKey this)))
           \<and> computeHmac sys this (JObj gs) = Inr (HmacSHA256 sys t (SHA256 sys (encryptionKey this)))))"
proof (intro conjI impI)
  assume "JSON_stringify v1 = JSON_stringify v2"
  then show "computeHmac sys this v1 = computeHmac sys this v2"
    by (simp add: computeHmac_def)
next
  assume s: "serializable (JObj fs)" and d: "distinct (map fst fs)" "distinct (map fst gs)"
    and m: "map_of fs = map_of gs" and ne: "fs \<noteq> gs"
  have s': "serializable (JObj gs)"
    by (rule same_map_serializable [OF s d(2) m])
  have "serialize (JObj fs) \<noteq> serialize (JObj gs)"
    by (rule different_order_different_text [OF d m ne])
  moreover have "JSON_stringify (JObj fs) = Inr (serialize (JObj fs))"
    "JSON_stringify (JObj gs) = Inr (serialize (JObj gs))"
    using s s' by (simp_all add: JSON_stringify_def)
  ultimately show "\<exists>s t. s \<noteq> t
      \<and> JSON_stringify (JObj fs) = Inr s \<and> JSON_stringify (JObj gs) = Inr t
      \<and> computeHmac sys this (JObj fs) = Inr (HmacSHA256 sys s (SHA256 sys (encryptionKey this)))
      \<and> computeHmac sys this (JObj gs) = Inr (HmacSHA256 sys t (SHA256 sys (encryptionKey this)))"
    by (simp add: computeHmac_def)
qed

theorem tag_of_serialization_witness:
  "JSON_stringify (JObj [(''a'', JNum (num 1)), (''b'', JNum (num 2))])
     \<noteq> JSON_stringify (JObj [(''b'', JNum (num 2)), (''a'', JNum (num 1))])
   \<and> computeHmac mem_sys demo_store (JNum NaN) = computeHmac mem_sys demo_store JNull"
proof -
  let ?fs = "[(''a'', JNum (num 1)), (''b'', JNum (num 2))]"
  let ?gs = "[(''b'', JNum (num 2)), (''a'', JNum (num 1))]"
  have t: "JSON_stringify (JNum NaN) = JSON_stringify JNull"
    by (simp add: JSON_stringify_def NaN_def)
  have s: "serializable (JObj ?fs)" by simp
  have d: "distinct (map fst ?fs)" "distinct (map fst ?gs)" by simp_all
  have m: "map_of ?fs = map_of ?gs" by (rule ext) simp
  have ne: "?fs \<noteq> ?gs" by simp
  show ?thesis
    using tag_of_serialization [of "JNum NaN" JNull mem_sys demo_store ?fs ?gs] t s d m ne
    by auto
qed

section \<open>Properties of the critical write\<close>

lemma printed_append [simp]: "printed (xs @ ys) = printed xs @ printed ys"
  by (simp add: printed_def)

lemma printed_simps [simp]:
  "printed [] = []"
  "printed (Sleep n # es) = printed es"
  "printed (Console l # es) = l # printed es"
  by (simp_all add: printed_def)

lemma verify_write_fails:
  "\<exists>f \<in> set fs. \<not> same_text (read_property v (fst f)) (snd f) \<Longrightarrow> \<exists>e. verify_write v fs = Inl e"
proof (induction fs)
  case Nil
  then show ?case by simp
next
  case (Cons f fs)
  show ?case
  proof (cases "same_text (read_property v (fst f)) (snd f)")
    case True
    then have "\<exists>g \<in> set fs. \<not> same_text (read_property v (fst g)) (snd g)"
      using Cons.prems by auto
    then obtain e where "verify_write v fs = Inl e"
      using Cons.IH by blast
    then show ?thesis
      using True by (auto simp: same_text_def split: sum.splits option.splits)
  next
    case False
    then show ?thesis
      by (auto simp: same_text_def split: sum.splits option.splits)
  qed
qed

lemma verify_write_error:
  "verify_write v fs = Inl e \<Longrightarrow>
     (\<exists>f \<in> set fs. e = Error (''Write verification failed for '' @ fst f))
     \<or> e = TypeError ''Do not know how to serialize a BigInt''"
  by (induction fs)
    (auto simp: stringify_opt_def JSON_stringify_def split: option.splits sum.splits if_splits)

lemma attempt_fails:
  assumes "critical options" "accepted_but_differs ls fs b b''"
  shows "\<exists>e. set_attempt ls fs options b = (Inl e, b'')
     \<and> ((\<exists>f \<in> set fs. e = Error (''Write verification failed for '' @ fst f))
        \<or> e = TypeError ''Do not know how to serialize a BigInt'')"
proof -
  obtain b' v where s: "local_set ls fs b = (Inr (), b')"
    and g: "local_get ls (Keys (map fst fs)) b' = (Inr v, b'')"
    and d: "\<exists>f \<in> set fs. \<not> same_text (read_property v (fst f)) (snd f)"
    using assms(2) unfolding accepted_but_differs_def by blast
  obtain e where e: "verify_write v fs = Inl e"
    using verify_write_fails [OF d] by blast
  have "set_attempt ls fs options b = (Inl e, b'')"
    using assms(1) s g e by (simp add: set_attempt_def)
  then show ?thesis
    using verify_write_error [OF e] by blast
qed

lemma storage_restoreFromBackup:
  "storage (snd (restoreFromBackup ls k w)) = restored ls k (storage w)"
  by (auto simp: restoreFromBackup_def restored_def emit_def
      split: prod.splits sum.splits option.splits bool.splits)

lemma storage_restore_all:
  "storage (restore_all ls ks w) = rolled_back ls ks (storage w)"
  unfolding rolled_back_def
  by (induction ks arbitrary: w) (simp_all add: storage_restoreFromBackup)

lemma storage_notifyUser [simp]: "storage (notifyUser this m w) = storage w"
  by (simp add: notifyUser_def emit_def)

lemma printed_notifyUser:
  "printed (trace (notifyUser this
      ''Failed to save data. Please try again or restart the application.'' w))
     = printed (trace w) @ alert_lines (isElectron this)"
  by (simp add: notifyUser_def emit_def alert_lines_def)

text \<open>
  Claim C4, as the code has it. With \<open>critical\<close> set, when at each of the three attempts
  the store accepts the write and the read-back holds, for some key, a value whose JSON
  text is not that of the intended value (or none, or one that cannot be serialised),
  every attempt counts as failed. After the third, every key of \<open>items\<close> is restored from
  its backup, in order, so the store is left as the rollback of the spec leaves it; the
  lines of the user alert are the last the console shows; and the error of the last
  attempt is thrown: the verification error of a key, or the TypeError of a value that
  cannot be serialised. The delays slept are 200 and 400 ms.
\<close>

theorem critical_write_rollback:
  assumes crit: "critical options"
    and a1: "accepted_but_differs ls fs (storage (prepared ls fs options w)) b1"
    and a2: "accepted_but_differs ls fs b1 b2"
    and a3: "accepted_but_differs ls fs b2 b3"
  shows "\<exists>e. fst (StorageManager_set ls this (JObj fs) options w) = Inl (Some e)
          \<and> set_attempt ls fs options b2 = (Inl e, b3)
          \<and> ((\<exists>f \<in> set fs. e = Error (''Write verification failed for '' @ fst f))
             \<or> e = TypeError ''Do not know how to serialize a BigInt'')
          \<and> storage (snd (StorageManager_set ls this (JObj fs) options w))
               = rolled_back ls (map fst fs) b3
          \<and> (\<exists>before. printed (trace (snd (StorageManager_set ls this (JObj fs) options w)))
               = before @ alert_lines (isElectron this))
          \<and> sleeps (trace (snd (StorageManager_set ls this (JObj fs) options w)))
               = sleeps (trace w) @ [200, 400]"
proof -
  let ?p = "prepared ls fs options w"
  obtain e1 where e1: "set_attempt ls fs options (storage ?p) = (Inl e1, b1)"
    using attempt_fails [OF crit a1] by blast
  obtain e2 where e2: "set_attempt ls fs options b1 = (Inl e2, b2)"
    using attempt_fails [OF crit a2] by blast
  obtain e3 where e3: "set_attempt ls fs options b2 = (Inl e3, b3)"
    and shape: "(\<exists>f \<in> set fs. e3 = Error (''Write verification failed for '' @ fst f))
        \<or> e3 = TypeError ''Do not know how to serialize a BigInt''"
    using attempt_fails [OF crit a3] by blast
  let ?w3 = "emit [Console (ConsoleError (''[StorageManager] '' @ cross_mark @ '' Write failed after ''
                @ show_nat MAX_RETRIES @ '' attempts, attempting rollback: '' @ thrown (Some e3)))]
              (?p\<lparr>storage := b3,
                  trace := trace ?p @ retry_notice ''Write'' 2 e1 @ retry_notice ''Write'' 1 e2\<rparr>)"
  let ?end = "notifyUser this ''Failed to save data. Please try again or restart the application.''
         (restore_all ls (map fst fs) ?w3)"
  have run: "StorageManager_set ls this (JObj fs) options w = (Inl (Some e3), ?end)"
    using crit by (simp add: StorageManager_set_def set_loop_exhausted [OF e1 e2 e3])
  have st: "storage ?end = rolled_back ls (map fst fs) b3"
    by (simp add: storage_restore_all emit_def)
  have pr: "printed (trace ?end)
      = printed (trace (restore_all ls (map fst fs) ?w3)) @ alert_lines (isElectron this)"
    by (rule printed_notifyUser)
  have sl: "sleeps (trace ?end) = sleeps (trace w) @ [200, 400]"
    by (simp add: emit_def)
  show ?thesis
    unfolding run using e3 shape st pr sl by auto
qed

text \<open>
  The witness: a store that loses a collection of two workflows. Before the rollback it
  holds an empty collection; the rollback writes the backup of the one workflow back.
\<close>

theorem critical_write_rollback_witness:
  "fst (StorageManager_set lossy_local (new_StorageManager False)
          (JObj [(''workflows'', two_workflows)]) \<lparr>backup = True, critical = True\<rparr>
          \<lparr>storage = [(''workflows'', one_workflow)], trace = []\<rparr>)
     = Inl (Some (Error ''Write verification failed for workflows''))
   \<and> storage (snd (set_loop lossy_local [(''workflows'', two_workflows)]
        \<lparr>backup = True, critical = True\<rparr> MAX_RETRIES None
        (prepared lossy_local [(''workflows'', two_workflows)] \<lparr>backup = True, critical = True\<rparr>
           \<lparr>storage = [(''workflows'', one_workflow)], trace = []\<rparr>)))
     = [(''workflows'', JObj []), (''__backup__workflows'', saved_copy)]
   \<and> storage (snd (StorageManager_set lossy_local (new_StorageManager False)
          (JObj [(''workflows'', two_workflows)]) \<lparr>backup = True, critical = True\<rparr>
          \<lparr>storage = [(''workflows'', one_workflow)], trace = []\<rparr>))
     = [(''workflows'', one_workflow), (''__backup__workflows'', saved_copy)]
   \<and> (\<exists>before. printed (trace (snd (StorageManager_set lossy_local (new_StorageManager False)
          (JObj [(''workflows'', two_workflows)]) \<lparr>backup = True, critical = True\<rparr>
          \<lparr>storage = [(''workflows'', one_workflow)], trace = []\<rparr>)))
        = before @ alert_lines False)"
proof -
  let ?fs = "[(''workflows'', two_workflows)]"
  let ?o = "\<lparr>backup = True, critical = True\<rparr>"
  let ?w = "\<lparr>storage = [(''workflows'', one_workflow)], trace = []\<rparr> :: fields world"
  let ?P = "[(''workflows'', one_workflow), (''__backup__workflows'', saved_copy)]"
  let ?L = "[(''workflows'', JObj []), (''__backup__workflows'', saved_copy)]"
  have crit: "critical ?o" by simp
  have p: "storage (prepared lossy_local ?fs ?o ?w) = ?P"
    by code_simp
  have lost: "accepted_but_differs lossy_local ?fs b ?L" if "b = ?P \<or> b = ?L" for b
    unfolding accepted_but_differs_def
  proof (intro exI conjI)
    show "local_set lossy_local ?fs b = (Inr (), ?L)"
      using that by (rule disjE) (simp, code_simp, simp, code_simp)
    show "local_get lossy_local (Keys (map fst ?fs)) ?L = (Inr [(''workflows'', JObj [])], ?L)"
      by code_simp
    show "\<exists>f \<in> set ?fs. \<not> same_text (read_property [(''workflows'', JObj [])] (fst f)) (snd f)"
      by (simp add: same_text_def read_property_def stringify_opt_def JSON_stringify_def two_workflows_def)
  qed
  have a1: "accepted_but_differs lossy_local ?fs (storage (prepared lossy_local ?fs ?o ?w)) ?L"
    unfolding p by (rule lost) simp
  have a2: "accepted_but_differs lossy_local ?fs ?L ?L"
    by (rule lost) simp
  have lossy: "storage (snd (set_loop lossy_local ?fs ?o MAX_RETRIES None
        (prepared lossy_local ?fs ?o ?w))) = ?L"
    by code_simp
  have undone: "rolled_back lossy_local (map fst ?fs) ?L = ?P"
    by code_simp
  have third: "set_attempt lossy_local ?fs ?o ?L
      = (Inl (Error ''Write verification failed for workflows''), ?L)"
    by code_simp
  obtain e where "fst (StorageManager_set lossy_local (new_StorageManager False) (JObj ?fs) ?o ?w)
        = Inl (Some e)"
    and "set_attempt lossy_local ?fs ?o ?L = (Inl e, ?L)"
    and "storage (snd (StorageManager_set lossy_local (new_StorageManager False) (JObj ?fs) ?o ?w))
        = rolled_back lossy_local (map fst ?fs) ?L"
    and "\<exists>before. printed (trace (snd (StorageManager_set lossy_local (new_StorageManager False)
          (JObj ?fs) ?o ?w))) = before @ alert_lines (isElectron (new_StorageManager False))"
    using critical_write_rollback [OF crit a1 a2 a2, of "new_StorageManager False"] by blast
  then show ?thesis
    using third lossy undone by (simp add: new_StorageManager_def registerMigrations_def)
qed

text \<open>
  The claim as stated fails for a difference \<^verbatim>\<open>JSON.stringify\<close> does not show. A store that
  keeps the JSON copy of what it is given turns \<^verbatim>\<open>NaN\<close> into \<^verbatim>\<open>null\<close>; the value read back is
  not the intended one, and the write counts as verified.
\<close>

theorem critical_write_rollback_counterexample:
  "local_set json_local [(''ratio'', JNum NaN)] [] = (Inr (), [(''ratio'', JNull)])
   \<and> local_get json_local (Keys [''ratio'']) [(''ratio'', JNull)]
       = (Inr [(''ratio'', JNull)], [(''ratio'', JNull)])
   \<and> JNull \<noteq> JNum NaN
   \<and> StorageManager_set json_local (new_StorageManager False) (JObj [(''ratio'', JNum NaN)])
        \<lparr>backup = False, critical = True\<rparr> \<lparr>storage = [], trace = []\<rparr>
       = (Inr True, \<lparr>storage = [(''ratio'', JNull)], trace = []\<rparr>)"
  by code_simp

section \<open>Properties of the debounced save\<close>



subsection \<open>One callback\<close>

lemma fire_frame [simp]:
  "timers (fire ls mgr t a) = filter (\<lambda>u. timeoutId u \<noteq> timeoutId t) (timers a)"
  "saveQueues (fire ls mgr t a) = filter (\<lambda>q. fst q \<noteq> queueKey t) (saveQueues a)"
  "pstore (fire ls mgr t a) = pstore a"
  "next_timeoutId (fire ls mgr t a) = next_timeoutId a"
  "length (promises (fire ls mgr t a)) = length (promises a)"
  "clock (fire ls mgr t a) = max (clock a) (due t)"
  by (simp_all add: fire_def Let_def settle_def split: sum.splits prod.splits)






subsection \<open>Coherent states\<close>







subsection \<open>The callbacks due by a time\<close>

lemma fold_fire_frame [simp]:
  "pstore (fold (fire ls mgr) L a) = pstore a"
  "next_timeoutId (fold (fire ls mgr) L a) = next_timeoutId a"
  "length (promises (fold (fire ls mgr) L a)) = length (promises a)"
  by (induction L arbitrary: a) simp_all









subsection \<open>Time passing\<close>


lemma advance_frame [simp]:
  "pstore (advance ls mgr t a) = pstore a"
  "next_timeoutId (advance ls mgr t a) = next_timeoutId a"
  "length (promises (advance ls mgr t a)) = length (promises a)"
  by (simp_all add: advance_def Let_def)


lemma coherent_clock [simp]: "coherent (a\<lparr>clock := c\<rparr>) = coherent a"
  by (simp add: coherent_def)

lemma coherent_pstore [simp]: "coherent (a\<lparr>pstore := st\<rparr>) = coherent a"
  by (simp add: coherent_def)







subsection \<open>One request\<close>




lemma save_pstore [simp]: "pstore (snd (saveToStorage k a)) = pstore a"
  by (simp add: saveToStorage_def new_promise_def Let_def settle_def clearTimeout_def
      split: option.splits prod.splits)




subsection \<open>What is handed to the manager\<close>

lemma set_state_simps [simp]:
  "timers (set_state s a) = timers a"
  "promises (set_state s a) = promises a"
  "handed (set_state s a) = handed a"
  "world (set_state s a) = world a"
  "clock (set_state s a) = clock a"
  "saveQueues (set_state s a) = saveQueues a"
  "next_timeoutId (set_state s a) = next_timeoutId a"
  "pstore (set_state s a) = (pstore a)\<lparr>property := s\<rparr>"
  "coherent (set_state s a) = coherent a"
  by (simp_all add: set_state_def)











end
